theory Spec2Isabelle
  imports Main "HOL-Library.Word" "HOL-Library.AList"
begin

section \<open>Python values shared by the two modules\<close>

text \<open>
  Exceptions are values: every \<^verbatim>\<open>raise\<close>, failed \<^verbatim>\<open>assert\<close>, missing key,
  missing attribute and out-of-range \<^verbatim>\<open>pop\<close> of the source is an \<open>Inl\<close> branch.
\<close>

datatype py_error =
    AssertionError
  | AttributeError
  | IndexError
  | KeyError string
  | TypeError
  | ValueError
  | ZeroDivisionError

section \<open>scripts/processor.py\<close>

subsection \<open>simple_scribble\<close>

text \<open>
  An image is a height-by-width array of pixels. After \<^verbatim>\<open>HWC3\<close> a pixel has exactly
  three \<^verbatim>\<open>uint8\<close> channels. \<^verbatim>\<open>HWC3\<close> and \<^verbatim>\<open>resize_image\<close> come from
  \<^verbatim>\<open>annotator.util\<close> and are parameters of the model.
\<close>

type_synonym pixel = "8 word \<times> 8 word \<times> 8 word"
type_synonym image = "pixel list list"

text \<open>\<^verbatim>\<open>np.min(img, axis=2)\<close> at one pixel position.\<close>

fun channel_min :: "pixel \<Rightarrow> 8 word" where
  "channel_min (r, g, b) = min r (min g b)"

text \<open>
  \<^verbatim>\<open>result = np.zeros_like(img, dtype=np.uint8); result[np.min(img, axis=2) < 127] = 255\<close>
  at one pixel position: the boolean mask selects whole pixels, so all three channels
  are written.
\<close>

definition threshold_pixel :: "pixel \<Rightarrow> pixel" where
  "threshold_pixel p = (if channel_min p < 127 then (255, 255, 255) else (0, 0, 0))"

definition simple_scribble ::
  "('raw \<Rightarrow> image) \<Rightarrow> (image \<Rightarrow> int \<Rightarrow> image) \<Rightarrow> 'raw \<Rightarrow> int \<Rightarrow> image" where
  "simple_scribble HWC3 resize_image img res =
     (let img' = resize_image (HWC3 img) res
      in map (map threshold_pixel) img')"

text \<open>The pixelwise complement of a two-level image: 255 becomes 0 and everything else 255.\<close>

definition invert_pixel :: "pixel \<Rightarrow> pixel" where
  "invert_pixel p = (if p = (255, 255, 255) then (0, 0, 0) else (255, 255, 255))"

text \<open>The intensities a pixel of an image takes.\<close>

definition two_level :: "image \<Rightarrow> bool" where
  "two_level img = list_all (list_all (\<lambda>p. p = (0, 0, 0) \<or> p = (255, 255, 255))) img"

subsection \<open>Lazily loaded detectors and their unload operations\<close>

text \<open>
  The module-level variables \<^verbatim>\<open>model_canny\<close>, \<^verbatim>\<open>model_hed\<close>, ... hold \<^verbatim>\<open>None\<close> or the
  imported \<^verbatim>\<open>apply_*\<close> callable (type \<open>'d\<close>). The detectors themselves live in the
  \<^verbatim>\<open>annotator\<close> packages, whose own state is the field \<open>annotator\<close> (type \<open>'x\<close>):
  calling a detector and calling \<^verbatim>\<open>unload_*_model\<close> may change it, and how is not
  decided in this repository, so both are parameters.
\<close>

record ('d, 'x) process =
  model_canny :: "'d option"
  model_hed :: "'d option"
  model_mlsd :: "'d option"
  model_midas :: "'d option"
  model_openpose :: "'d option"
  model_uniformer :: "'d option"
  annotator :: "'x"

text \<open>
  Each detection operation reads its slot, stores the imported callable there when the
  slot is \<^verbatim>\<open>None\<close> (otherwise the slot keeps what it holds), and calls what the slot
  holds. \<open>run d args x\<close> is the call \<^verbatim>\<open>model_*(img, ...)\<close> of the cached callable \<open>d\<close> in the
  annotator state \<open>x\<close>: its result and the annotator state after it.
\<close>

type_synonym ('d, 'x, 'a, 'r) caller = "'d \<Rightarrow> 'a \<Rightarrow> 'x \<Rightarrow> 'r \<times> 'x"

definition hed ::
  "('d, 'x, image, 'r) caller \<Rightarrow> 'd \<Rightarrow> ('raw \<Rightarrow> image) \<Rightarrow> (image \<Rightarrow> int \<Rightarrow> image) \<Rightarrow>
   'raw \<Rightarrow> int \<Rightarrow> ('d, 'x) process \<Rightarrow> 'r \<times> ('d, 'x) process" where
  "hed run apply_hed HWC3 resize_image img res s =
     (let img' = resize_image (HWC3 img) res;
          d = (case model_hed s of None \<Rightarrow> apply_hed | Some d \<Rightarrow> d);
          s1 = s\<lparr>model_hed := Some d\<rparr>;
          (result, x') = run d img' (annotator s1)
      in (result, s1\<lparr>annotator := x'\<rparr>))"

definition unload_hed :: "('x \<Rightarrow> 'x) \<Rightarrow> ('d, 'x) process \<Rightarrow> ('d, 'x) process" where
  "unload_hed unload_hed_model s =
     (if model_hed s \<noteq> None then s\<lparr>annotator := unload_hed_model (annotator s)\<rparr> else s)"

definition mlsd ::
  "('d, 'x, image \<times> 'p \<times> 'p, 'r) caller \<Rightarrow> 'd \<Rightarrow> ('raw \<Rightarrow> image) \<Rightarrow> (image \<Rightarrow> int \<Rightarrow> image) \<Rightarrow>
   'raw \<Rightarrow> int \<Rightarrow> 'p \<Rightarrow> 'p \<Rightarrow> ('d, 'x) process \<Rightarrow> 'r \<times> ('d, 'x) process" where
  "mlsd run apply_mlsd HWC3 resize_image img res thr_v thr_d s =
     (let img' = resize_image (HWC3 img) res;
          d = (case model_mlsd s of None \<Rightarrow> apply_mlsd | Some d \<Rightarrow> d);
          s1 = s\<lparr>model_mlsd := Some d\<rparr>;
          (result, x') = run d (img', thr_v, thr_d) (annotator s1)
      in (result, s1\<lparr>annotator := x'\<rparr>))"

definition unload_mlsd :: "('x \<Rightarrow> 'x) \<Rightarrow> ('d, 'x) process \<Rightarrow> ('d, 'x) process" where
  "unload_mlsd unload_mlsd_model s =
     (if model_mlsd s \<noteq> None then s\<lparr>annotator := unload_mlsd_model (annotator s)\<rparr> else s)"

definition midas ::
  "('d, 'x, image \<times> 'p, 'r \<times> 'r) caller \<Rightarrow> 'd \<Rightarrow> ('raw \<Rightarrow> image) \<Rightarrow> (image \<Rightarrow> int \<Rightarrow> image) \<Rightarrow>
   'raw \<Rightarrow> int \<Rightarrow> 'p \<Rightarrow> ('d, 'x) process \<Rightarrow> 'r \<times> ('d, 'x) process" where
  "midas run apply_midas HWC3 resize_image img res a s =
     (let img' = resize_image (HWC3 img) res;
          d = (case model_midas s of None \<Rightarrow> apply_midas | Some d \<Rightarrow> d);
          s1 = s\<lparr>model_midas := Some d\<rparr>;
          ((results, other), x') = run d (img', a) (annotator s1)
      in (results, s1\<lparr>annotator := x'\<rparr>))"

definition unload_midas :: "('x \<Rightarrow> 'x) \<Rightarrow> ('d, 'x) process \<Rightarrow> ('d, 'x) process" where
  "unload_midas unload_midas_model s =
     (if model_midas s \<noteq> None then s\<lparr>annotator := unload_midas_model (annotator s)\<rparr> else s)"

definition openpose ::
  "('d, 'x, image \<times> bool, 'r \<times> 'q) caller \<Rightarrow> 'd \<Rightarrow> ('raw \<Rightarrow> image) \<Rightarrow> (image \<Rightarrow> int \<Rightarrow> image) \<Rightarrow>
   'raw \<Rightarrow> int \<Rightarrow> bool \<Rightarrow> ('d, 'x) process \<Rightarrow> 'r \<times> ('d, 'x) process" where
  "openpose run apply_openpose HWC3 resize_image img res has_hand s =
     (let img' = resize_image (HWC3 img) res;
          d = (case model_openpose s of None \<Rightarrow> apply_openpose | Some d \<Rightarrow> d);
          s1 = s\<lparr>model_openpose := Some d\<rparr>;
          ((result, other), x') = run d (img', has_hand) (annotator s1)
      in (result, s1\<lparr>annotator := x'\<rparr>))"

definition unload_openpose :: "('x \<Rightarrow> 'x) \<Rightarrow> ('d, 'x) process \<Rightarrow> ('d, 'x) process" where
  "unload_openpose unload_openpose_model s =
     (if model_openpose s \<noteq> None then s\<lparr>annotator := unload_openpose_model (annotator s)\<rparr> else s)"

definition uniformer ::
  "('d, 'x, image, 'r) caller \<Rightarrow> 'd \<Rightarrow> ('raw \<Rightarrow> image) \<Rightarrow> (image \<Rightarrow> int \<Rightarrow> image) \<Rightarrow>
   'raw \<Rightarrow> int \<Rightarrow> ('d, 'x) process \<Rightarrow> 'r \<times> ('d, 'x) process" where
  "uniformer run apply_uniformer HWC3 resize_image img res s =
     (let img' = resize_image (HWC3 img) res;
          d = (case model_uniformer s of None \<Rightarrow> apply_uniformer | Some d \<Rightarrow> d);
          s1 = s\<lparr>model_uniformer := Some d\<rparr>;
          (result, x') = run d img' (annotator s1)
      in (result, s1\<lparr>annotator := x'\<rparr>))"

definition unload_uniformer :: "('x \<Rightarrow> 'x) \<Rightarrow> ('d, 'x) process \<Rightarrow> ('d, 'x) process" where
  "unload_uniformer unload_uniformer_model s =
     (if model_uniformer s \<noteq> None then s\<lparr>annotator := unload_uniformer_model (annotator s)\<rparr> else s)"

text \<open>The process state at import time: every slot is \<^verbatim>\<open>None\<close>.\<close>

definition fresh_process :: "'x \<Rightarrow> ('d, 'x) process" where
  "fresh_process x =
     \<lparr>model_canny = None, model_hed = None, model_mlsd = None, model_midas = None,
      model_openpose = None, model_uniformer = None, annotator = x\<rparr>"

section \<open>scripts/cldm.py: checkpoint reconciliation\<close>

subsection \<open>Strings\<close>

text \<open>\<^verbatim>\<open>s.startswith(p)\<close>.\<close>

definition startswith :: "string \<Rightarrow> string \<Rightarrow> bool" where
  "startswith s p = (take (length p) s = p)"

text \<open>
  \<^verbatim>\<open>s.replace(old, new)\<close>: the occurrences of \<open>old\<close> are found from the left and do
  not overlap, and every one of them is replaced. (With an empty \<open>old\<close> Python puts
  \<open>new\<close> before every character and at the end.)
\<close>

function str_replace :: "string \<Rightarrow> string \<Rightarrow> string \<Rightarrow> string" where
  "str_replace old new [] = (if old = [] then new else [])"
| "str_replace old new (c # cs) =
     (if old = [] then new @ c # str_replace old new cs
      else if take (length old) (c # cs) = old
        then new @ str_replace old new (drop (length old) (c # cs))
        else c # str_replace old new cs)"
  by pat_completeness auto
termination
  by (relation "measure (\<lambda>(old, new, s). length s)") auto

text \<open>
  \<^verbatim>\<open>get_node_name(name, parent_name)\<close>: whether \<open>name\<close> is strictly longer than
  \<open>parent_name\<close> and starts with it, and what follows it.
\<close>

definition get_node_name :: "string \<Rightarrow> string \<Rightarrow> bool \<times> string" where
  "get_node_name name parent_name =
     (if length name \<le> length parent_name then (False, [])
      else let p = take (length parent_name) name
           in if p \<noteq> parent_name then (False, [])
              else (True, drop (length parent_name) name))"

subsection \<open>State dicts\<close>

text \<open>
  A state dict is a Python \<^verbatim>\<open>dict\<close> from parameter names to tensors: an association
  list in insertion order, read with \<open>map_of\<close> and written with \<open>AList.update\<close> (an
  existing key keeps its place, a new key goes to the end, as in Python). The loop of the
  constructor only adds and subtracts tensors, so a tensor is a value of any type with
  \<open>+\<close> and \<open>-\<close>; \<^verbatim>\<open>.clone().cpu()\<close> does not change the value. (Tensor addition of
  mismatched shapes, which PyTorch refuses or broadcasts, is outside this model.)
\<close>

type_synonym 'a state_dict = "(string \<times> 'a) list"

text \<open>
  The lookup key of the transfer loop:
  \<^verbatim>\<open>is_control, node_name = get_node_name(key, 'control_')\<close>,
  \<^verbatim>\<open>key_name = node_name.replace("model.", "") if is_control else key\<close>.
\<close>

definition key_name :: "string \<Rightarrow> string" where
  "key_name key =
     (let (is_control, node_name) = get_node_name key ''control_''
      in if is_control then str_replace ''model.'' [] node_name else key)"

text \<open>
  The body of the transfer loop for one key that starts with \<^verbatim>\<open>control_model.\<close>: the
  new value \<^verbatim>\<open>p_new\<close> and what is added to \<^verbatim>\<open>counter\<close>. Reading a key the dict
  does not hold raises \<^verbatim>\<open>KeyError\<close>.
\<close>

definition p_new ::
  "bool \<Rightarrow> ('a :: {plus, minus}) state_dict \<Rightarrow> 'a state_dict \<Rightarrow> string \<Rightarrow> py_error + ('a \<times> nat)" where
  "p_new is_diff_model state_dict unet_state_dict key =
     (case map_of state_dict key of
        None \<Rightarrow> Inl (KeyError key)
      | Some p \<Rightarrow>
          (case map_of unet_state_dict (key_name key) of
             Some b \<Rightarrow>
               if is_diff_model then Inr (p + b, 1)
               else (case map_of state_dict (''model.diffusion_model.'' @ key_name key) of
                       None \<Rightarrow> Inl (KeyError (''model.diffusion_model.'' @ key_name key))
                     | Some r \<Rightarrow> Inr (p + b - r, 1))
           | None \<Rightarrow> Inr (p, 0)))"

text \<open>
  \<^verbatim>\<open>for key in state_dict.keys(): ...\<close> with the accumulators \<^verbatim>\<open>final_state_dict\<close>
  and \<^verbatim>\<open>counter\<close>; the first exception ends the loop.
\<close>

fun transfer_loop ::
  "bool \<Rightarrow> ('a :: {plus, minus}) state_dict \<Rightarrow> 'a state_dict \<Rightarrow> string list \<Rightarrow>
   'a state_dict \<times> nat \<Rightarrow> py_error + ('a state_dict \<times> nat)" where
  "transfer_loop is_diff_model state_dict unet_state_dict [] acc = Inr acc"
| "transfer_loop is_diff_model state_dict unet_state_dict (key # keys) (final_state_dict, counter) =
     (if \<not> startswith key ''control_model.''
      then transfer_loop is_diff_model state_dict unet_state_dict keys (final_state_dict, counter)
      else (case p_new is_diff_model state_dict unet_state_dict key of
              Inl e \<Rightarrow> Inl e
            | Inr (v, n) \<Rightarrow>
                transfer_loop is_diff_model state_dict unet_state_dict keys
                  (AList.update key v final_state_dict, counter + n)))"

definition transfer_control ::
  "bool \<Rightarrow> ('a :: {plus, minus}) state_dict \<Rightarrow> 'a state_dict \<Rightarrow> py_error + ('a state_dict \<times> nat)" where
  "transfer_control is_diff_model state_dict unet_state_dict =
     transfer_loop is_diff_model state_dict unet_state_dict (map fst state_dict) ([], 0)"

text \<open>
  \<^verbatim>\<open>{k.replace("control_model.", ""): v for k, v in state_dict.items()
     if k.startswith("control_model.")}\<close>
\<close>

definition strip_control_model :: "'a state_dict \<Rightarrow> 'a state_dict" where
  "strip_control_model state_dict =
     foldl (\<lambda>acc (k, v).
              if startswith k ''control_model.''
              then AList.update (str_replace ''control_model.'' [] k) v acc else acc)
       [] state_dict"

text \<open>
  The reconciliation of \<^verbatim>\<open>PlugableControlModel.__init__\<close>, from the loaded
  \<^verbatim>\<open>state_dict\<close> to the dict handed to \<^verbatim>\<open>self.control_model.load_state_dict\<close>.
  \<open>opts\<close> is \<^verbatim>\<open>shared.opts.data\<close>; \<open>base_model\<close> is \<open>None\<close> or the state dict of the
  base model.
\<close>

definition reconcile ::
  "(string \<rightharpoonup> bool) \<Rightarrow> ('a :: {plus, minus}) state_dict option \<Rightarrow> 'a state_dict \<Rightarrow>
   py_error + 'a state_dict" where
  "reconcile opts base_model state_dict =
     (if list_ex (\<lambda>(k, v). startswith k ''control_model.'') state_dict then
        let is_diff_model = (map_of state_dict ''difference'' \<noteq> None);
            transfer_ctrl_opt =
              ((case opts ''control_net_control_transfer'' of None \<Rightarrow> False | Some b \<Rightarrow> b)
               \<and> list_ex (\<lambda>(k, v). startswith k ''model.diffusion_model.'') state_dict)
        in (case base_model of
              Some unet_state_dict \<Rightarrow>
                if is_diff_model \<or> transfer_ctrl_opt then
                  (case transfer_control is_diff_model state_dict unet_state_dict of
                     Inl e \<Rightarrow> Inl e
                   | Inr (final_state_dict, counter) \<Rightarrow> Inr (strip_control_model final_state_dict))
                else Inr (strip_control_model state_dict)
            | None \<Rightarrow> Inr (strip_control_model state_dict))
      else Inr state_dict)"

text \<open>
  Every key of the checkpoint that the transfer loop offsets in transfer mode has its
  reference recorded in the checkpoint under \<^verbatim>\<open>model.diffusion_model.\<close>.
\<close>

definition refs_recorded :: "'a state_dict \<Rightarrow> 'a state_dict \<Rightarrow> bool" where
  "refs_recorded state_dict unet_state_dict =
     list_all (\<lambda>key. startswith key ''control_model.'' \<and> map_of unet_state_dict (key_name key) \<noteq> None
                  \<longrightarrow> map_of state_dict (''model.diffusion_model.'' @ key_name key) \<noteq> None)
       (map fst state_dict)"

section \<open>scripts/cldm.py: the hosting wrapper\<close>

text \<open>
  The attribute \<^verbatim>\<open>forward\<close> of the host network holds either whatever the host had
  (\<open>ClassForward f\<close>, the host's own computation \<open>f\<close>) or the closure \<^verbatim>\<open>forward2\<close> that
  \<^verbatim>\<open>hook\<close> builds, bound to the host and reading the wrapper.
\<close>

datatype 'f forward_fn = ClassForward 'f | Forward2

text \<open>
  The host network (\<^verbatim>\<open>model\<close>, a \<^verbatim>\<open>UNetModel\<close>): its attribute \<^verbatim>\<open>forward\<close>, the
  attribute \<^verbatim>\<open>_original_forward\<close> (\<open>None\<close> when the object has no such attribute), and
  the attributes the hooked forward reads.
\<close>

record ('f, 'm, 'd) unet =
  forward :: "'f forward_fn"
  original_forward :: "'f forward_fn option"
  unet_input_blocks :: "'m list"
  unet_middle_block :: "'m"
  unet_output_blocks :: "'m list"
  unet_out :: "'m"
  unet_time_embed :: "'m"
  unet_model_channels :: int
  unet_dtype :: "'d"

text \<open>The fields of a \<^verbatim>\<open>PlugableControlModel\<close>; \<^verbatim>\<open>None\<close> is \<open>None\<close>.\<close>

record ('cn, 't, 'w) plugable =
  control_model :: "'cn"
  lowvram :: bool
  weight :: "'w"
  only_mid_control :: bool
  control :: "'t option"
  hint_cond :: "'t option"

text \<open>
  The two objects the methods work on: the wrapper (\<^verbatim>\<open>self\<close>, called \<^verbatim>\<open>outer\<close> inside
  \<^verbatim>\<open>hook\<close>) and the host network (\<^verbatim>\<open>model\<close>). A method returns the pair as it leaves it.
\<close>

record ('cn, 't, 'w, 'f, 'm, 'd) session =
  outer :: "('cn, 't, 'w) plugable"
  host :: "('f, 'm, 'd) unet"

text \<open>
  \<^verbatim>\<open>model._original_forward = model.forward\<close>,
  \<^verbatim>\<open>model.forward = forward2.__get__(model, UNetModel)\<close>
\<close>

definition hook :: "('cn, 't, 'w, 'f, 'm, 'd) session \<Rightarrow> ('cn, 't, 'w, 'f, 'm, 'd) session" where
  "hook s = s\<lparr>host := (host s)\<lparr>original_forward := Some (forward (host s)), forward := Forward2\<rparr>\<rparr>"

text \<open>\<^verbatim>\<open>self.hint_cond = cond_like; self.weight = weight\<close>\<close>

definition notify ::
  "('cn, 't, 'w, 'f, 'm, 'd) session \<Rightarrow> 't option \<Rightarrow> 'w \<Rightarrow> ('cn, 't, 'w, 'f, 'm, 'd) session" where
  "notify s cond_like wt = s\<lparr>outer := (outer s)\<lparr>hint_cond := cond_like, weight := wt\<rparr>\<rparr>"

text \<open>
  Reading and deleting the attribute \<^verbatim>\<open>_original_forward\<close>: both raise
  \<^verbatim>\<open>AttributeError\<close> on an object without it.
\<close>

definition get_original_forward :: "('f, 'm, 'd) unet \<Rightarrow> py_error + 'f forward_fn" where
  "get_original_forward m = (case original_forward m of None \<Rightarrow> Inl AttributeError | Some f \<Rightarrow> Inr f)"

definition del_original_forward :: "('f, 'm, 'd) unet \<Rightarrow> py_error + ('f, 'm, 'd) unet" where
  "del_original_forward m =
     (case original_forward m of None \<Rightarrow> Inl AttributeError | Some f \<Rightarrow> Inr (m\<lparr>original_forward := None\<rparr>))"

text \<open>
  \<^verbatim>\<open>if not hasattr(model, "_original_forward"): return\<close>,
  \<^verbatim>\<open>model.forward = model._original_forward\<close>, \<^verbatim>\<open>del model._original_forward\<close>
\<close>

definition restore ::
  "('cn, 't, 'w, 'f, 'm, 'd) session \<Rightarrow> py_error + ('cn, 't, 'w, 'f, 'm, 'd) session" where
  "restore s =
     (if original_forward (host s) = None then Inr s
      else (case get_original_forward (host s) of
              Inl e \<Rightarrow> Inl e
            | Inr f \<Rightarrow>
                (case del_original_forward ((host s)\<lparr>forward := f\<rparr>) of
                   Inl e \<Rightarrow> Inl e
                 | Inr m \<Rightarrow> Inr (s\<lparr>host := m\<rparr>))))"

section \<open>scripts/cldm.py: the control network\<close>

subsection \<open>Sequencing of steps that may raise\<close>

definition bind_err :: "py_error + 'a \<Rightarrow> ('a \<Rightarrow> py_error + 'b) \<Rightarrow> py_error + 'b" where
  "bind_err r f = (case r of Inl e \<Rightarrow> Inl e | Inr v \<Rightarrow> f v)"

text \<open>\<^verbatim>\<open>assert cond\<close>\<close>

definition assert_that :: "bool \<Rightarrow> py_error + unit" where
  "assert_that cond = (if cond then Inr () else Inl AssertionError)"

text \<open>\<^verbatim>\<open>xs[i]\<close> for a list and an index that is not negative.\<close>

definition item :: "'a list \<Rightarrow> nat \<Rightarrow> py_error + 'a" where
  "item xs i = (if i < length xs then Inr (xs ! i) else Inl IndexError)"

text \<open>\<^verbatim>\<open>a // b\<close> on Python integers: floor division, \<^verbatim>\<open>ZeroDivisionError\<close> for \<open>b = 0\<close>.\<close>

definition floordiv :: "int \<Rightarrow> int \<Rightarrow> py_error + int" where
  "floordiv a b = (if b = 0 then Inl ZeroDivisionError else Inr (a div b))"

subsection \<open>Modules\<close>

text \<open>
  A convolution with its parameters: one row of weights per output channel (the
  kernel window and the input channels flattened), one bias per output channel.
\<close>

record 'a conv =
  conv_in :: int
  conv_out :: int
  conv_kernel :: int
  conv_padding :: int
  conv_stride :: int
  conv_weight :: "'a list list"
  conv_bias :: "'a list"

text \<open>
  The modules the constructor puts together. The blocks of the host framework are
  opaque: a block is named with the arguments the constructor computes for it
  (\<open>ResBlock channels out_channels down\<close>, \<open>AttentionBlock channels num_heads
  num_head_channels\<close>, \<open>SpatialTransformer in_channels n_heads d_head disable_self_attn\<close>,
  \<open>Downsample channels out_channels\<close>, \<open>Linear in out\<close>); the arguments the constructor
  only passes through (dropout, dims, use_checkpoint, ...) are not repeated.
\<close>

datatype 'a layer =
    Conv "'a conv"
  | Linear int int
  | SiLU
  | ResBlock int int bool
  | AttentionBlock int int int
  | SpatialTransformer int int int bool
  | Downsample int int

text \<open>A \<^verbatim>\<open>TimestepEmbedSequential\<close> (or \<^verbatim>\<open>nn.Sequential\<close>) is the list of its layers.\<close>

type_synonym 'a block = "'a layer list"

text \<open>
  Modelled from the spec: \<^verbatim>\<open>conv_nd\<close> of \<^verbatim>\<open>ldm.modules.diffusionmodules.util\<close> is not
  in this repository. It builds a convolution of the given channel counts, kernel size,
  padding and stride; its parameters start at whatever the framework's initialiser gives,
  here \<open>ini k\<close> for the \<open>k\<close>-th parameter.
\<close>

definition conv_nd :: "(nat \<Rightarrow> 'a) \<Rightarrow> int \<Rightarrow> int \<Rightarrow> int \<Rightarrow> int \<Rightarrow> int \<Rightarrow> int \<Rightarrow> 'a layer" where
  "conv_nd ini dms cin cout ksize padding stride =
     (let fan = nat (cin * ksize ^ nat dms); n = nat cout
      in Conv \<lparr>conv_in = cin, conv_out = cout, conv_kernel = ksize, conv_padding = padding,
               conv_stride = stride,
               conv_weight = map (\<lambda>row. map (\<lambda>i. ini (row * fan + i)) [0..<fan]) [0..<n],
               conv_bias = map (\<lambda>row. ini (n * fan + row)) [0..<n]\<rparr>)"

text \<open>
  Modelled from the spec: \<^verbatim>\<open>zero_module\<close> of \<^verbatim>\<open>ldm.modules.diffusionmodules.util\<close> is
  not in this repository. It sets every parameter of the module to zero and returns the
  module (the spec's zero convolution: "initialized to all-zero weights and bias"). The
  source applies it to convolutions only.
\<close>

fun zero_module :: "('a :: zero) layer \<Rightarrow> 'a layer" where
  "zero_module (Conv c) =
     Conv (c\<lparr>conv_weight := map (map (\<lambda>w. 0)) (conv_weight c),
             conv_bias := map (\<lambda>b. 0) (conv_bias c)\<rparr>)"
| "zero_module l = l"

text \<open>
  Modelled from the spec: what a convolution computes is not in this repository. At one
  output position, output channel \<open>o\<close> is the bias of \<open>o\<close> plus the sum of the products of
  the weights of \<open>o\<close> with the input values under the kernel window (\<open>patch\<close>, in the
  order of the weights). \<open>conv_forward\<close> is the output over all output positions, given
  the windows of the input.
\<close>

definition conv_at :: "('a :: semiring_0) conv \<Rightarrow> 'a list \<Rightarrow> 'a list" where
  "conv_at c patch =
     map (\<lambda>(row, b). b + sum_list (map (\<lambda>(w, v). w * v) (zip row patch)))
       (zip (conv_weight c) (conv_bias c))"

definition conv_forward :: "('a :: semiring_0) conv \<Rightarrow> 'a list list \<Rightarrow> 'a list list" where
  "conv_forward c patches = map (conv_at c) patches"

text \<open>All parameters of a convolution are zero.\<close>

definition zero_params :: "('a :: zero) conv \<Rightarrow> bool" where
  "zero_params c =
     (list_all (list_all (\<lambda>w. w = 0)) (conv_weight c) \<and> list_all (\<lambda>b. b = 0) (conv_bias c))"

text \<open>A block is one zero-initialised convolution.\<close>

fun zero_block :: "('a :: zero) block \<Rightarrow> bool" where
  "zero_block [Conv c] = zero_params c"
| "zero_block ls = False"

subsection \<open>The constructor\<close>

text \<open>
  The arguments of \<^verbatim>\<open>ControlNet.__init__\<close> that decide what is built.
  \<^verbatim>\<open>num_res_blocks\<close> is an int (\<open>Inl\<close>) or a list (\<open>Inr\<close>); an argument that may be
  \<^verbatim>\<open>None\<close> is an option (\<^verbatim>\<open>context_dim\<close> and \<^verbatim>\<open>n_embed\<close> only matter as given or not).
\<close>

record config =
  cfg_image_size :: int
  cfg_in_channels :: int
  cfg_model_channels :: int
  cfg_hint_channels :: int
  cfg_num_res_blocks :: "int + int list"
  cfg_attention_resolutions :: "int list"
  cfg_channel_mult :: "int list"
  cfg_dims :: int
  cfg_use_fp16 :: bool
  cfg_num_heads :: int
  cfg_num_head_channels :: int
  cfg_num_heads_upsample :: int
  cfg_resblock_updown :: bool
  cfg_use_spatial_transformer :: bool
  cfg_context_dim :: "int option"
  cfg_n_embed :: "int option"
  cfg_legacy :: bool
  cfg_disable_self_attentions :: "bool list option"
  cfg_num_attention_blocks :: "int list option"
  cfg_disable_middle_self_attn :: bool

datatype dtype = Float16 | Float32 | Float64 | BFloat16

text \<open>The attributes of a \<^verbatim>\<open>ControlNet\<close> that the rest of the code reads.\<close>

record 'a controlnet =
  dims :: int
  model_channels :: int
  dtype :: dtype
  num_res_blocks :: "int list"
  time_embed :: "'a block"
  input_blocks :: "'a block list"
  zero_convs :: "'a block list"
  input_hint_block :: "'a block"
  middle_block :: "'a block"
  middle_block_out :: "'a block"
  feature_size :: int

text \<open>
  \<^verbatim>\<open>make_zero_conv(self, channels)\<close>:
  \<^verbatim>\<open>TimestepEmbedSequential(zero_module(conv_nd(self.dims, channels, channels, 1, padding=0)))\<close>
\<close>

definition make_zero_conv :: "(nat \<Rightarrow> 'a) \<Rightarrow> int \<Rightarrow> int \<Rightarrow> ('a :: zero) block" where
  "make_zero_conv ini dms channels = [zero_module (conv_nd ini dms channels channels 1 0 1)]"

text \<open>
  The head count and the per-head channel count at an attention site. The source has
  these lines twice, inside the loop and before the middle block:
  \<^verbatim>\<open>if num_head_channels == -1: dim_head = ch // num_heads\<close>,
  \<^verbatim>\<open>else: num_heads = ch // num_head_channels; dim_head = num_head_channels\<close>,
  \<^verbatim>\<open>if legacy: dim_head = ch // num_heads if use_spatial_transformer else num_head_channels\<close>.
  The result is the new \<^verbatim>\<open>num_heads\<close> and \<^verbatim>\<open>dim_head\<close>.
\<close>

definition head_dims :: "config \<Rightarrow> int \<Rightarrow> int \<Rightarrow> py_error + (int \<times> int)" where
  "head_dims cfg ch n_heads =
     bind_err
       (if cfg_num_head_channels cfg = - 1
        then bind_err (floordiv ch n_heads) (\<lambda>dim_head. Inr (n_heads, dim_head))
        else bind_err (floordiv ch (cfg_num_head_channels cfg))
               (\<lambda>n_heads'. Inr (n_heads', cfg_num_head_channels cfg)))
       (\<lambda>(n_heads', dim_head).
          if cfg_legacy cfg then
            (if cfg_use_spatial_transformer cfg
             then bind_err (floordiv ch n_heads') (\<lambda>dim_head'. Inr (n_heads', dim_head'))
             else Inr (n_heads', cfg_num_head_channels cfg))
          else Inr (n_heads', dim_head))"

text \<open>
  The attention layer at a site:
  \<^verbatim>\<open>AttentionBlock(...) if not use_spatial_transformer else SpatialTransformer(...)\<close>
\<close>

definition attention_layer :: "config \<Rightarrow> int \<Rightarrow> int \<Rightarrow> int \<Rightarrow> bool \<Rightarrow> 'a layer" where
  "attention_layer cfg ch n_heads dim_head disabled_sa =
     (if \<not> cfg_use_spatial_transformer cfg then AttentionBlock ch n_heads dim_head
      else SpatialTransformer ch n_heads dim_head disabled_sa)"

text \<open>
  What the loops of the constructor update: the network under construction
  (\<^verbatim>\<open>self.input_blocks\<close>, \<^verbatim>\<open>self.zero_convs\<close>, \<^verbatim>\<open>self._feature_size\<close>) and the locals
  \<^verbatim>\<open>input_block_chans\<close>, \<^verbatim>\<open>ch\<close>, \<^verbatim>\<open>ds\<close>, \<^verbatim>\<open>num_heads\<close>.
\<close>

record 'a build =
  net :: "'a controlnet"
  input_block_chans :: "int list"
  ch :: int
  ds :: int
  num_heads :: int

text \<open>The body of \<^verbatim>\<open>for nr in range(self.num_res_blocks[level])\<close>.\<close>

definition res_step ::
  "(nat \<Rightarrow> 'a) \<Rightarrow> config \<Rightarrow> nat \<Rightarrow> int \<Rightarrow> int \<Rightarrow> ('a :: zero) build \<Rightarrow> py_error + 'a build" where
  "res_step ini cfg level mult nr b =
     (let layers = [ResBlock (ch b) (mult * cfg_model_channels cfg) False];
          ch' = mult * cfg_model_channels cfg
      in bind_err
           (if ds b \<in> set (cfg_attention_resolutions cfg) then
              bind_err (head_dims cfg ch' (num_heads b)) (\<lambda>(n_heads', dim_head).
              bind_err (case cfg_disable_self_attentions cfg of
                          Some dsa \<Rightarrow> item dsa level
                        | None \<Rightarrow> Inr False) (\<lambda>disabled_sa.
              bind_err (case cfg_num_attention_blocks cfg of
                          None \<Rightarrow> Inr True
                        | Some nab \<Rightarrow> bind_err (item nab level) (\<lambda>cap. Inr (nr < cap))) (\<lambda>attach.
              Inr (if attach then layers @ [attention_layer cfg ch' n_heads' dim_head disabled_sa]
                   else layers,
                   n_heads'))))
            else Inr (layers, num_heads b))
           (\<lambda>(layers', n_heads').
              Inr (b\<lparr>net := (net b)
                        \<lparr>input_blocks := input_blocks (net b) @ [layers'],
                         zero_convs := zero_convs (net b) @ [make_zero_conv ini (dims (net b)) ch'],
                         feature_size := feature_size (net b) + ch'\<rparr>,
                      input_block_chans := input_block_chans b @ [ch'],
                      ch := ch',
                      num_heads := n_heads'\<rparr>)))"

fun res_loop ::
  "(nat \<Rightarrow> 'a) \<Rightarrow> config \<Rightarrow> nat \<Rightarrow> int \<Rightarrow> int list \<Rightarrow> ('a :: zero) build \<Rightarrow> py_error + 'a build" where
  "res_loop ini cfg level mult [] b = Inr b"
| "res_loop ini cfg level mult (nr # nrs) b =
     (case res_step ini cfg level mult nr b of
        Inl e \<Rightarrow> Inl e
      | Inr b' \<Rightarrow> res_loop ini cfg level mult nrs b')"

text \<open>The block appended after a level that is not the last one (\<^verbatim>\<open>out_ch = ch\<close>).\<close>

definition down_step :: "(nat \<Rightarrow> 'a) \<Rightarrow> config \<Rightarrow> ('a :: zero) build \<Rightarrow> 'a build" where
  "down_step ini cfg b =
     (let out_ch = ch b
      in b\<lparr>net := (net b)
               \<lparr>input_blocks := input_blocks (net b) @
                   [[if cfg_resblock_updown cfg then ResBlock (ch b) out_ch True
                     else Downsample (ch b) out_ch]],
                zero_convs := zero_convs (net b) @ [make_zero_conv ini (dims (net b)) out_ch],
                feature_size := feature_size (net b) + out_ch\<rparr>,
             input_block_chans := input_block_chans b @ [out_ch],
             ch := out_ch,
             ds := ds b * 2\<rparr>)"

text \<open>\<^verbatim>\<open>range(n)\<close>\<close>

definition py_range :: "int \<Rightarrow> int list" where
  "py_range n = map int [0..<nat n]"

text \<open>
  \<^verbatim>\<open>for level, mult in enumerate(channel_mult)\<close>, over the pairs that are left.
\<close>

fun level_loop ::
  "(nat \<Rightarrow> 'a) \<Rightarrow> config \<Rightarrow> (nat \<times> int) list \<Rightarrow> ('a :: zero) build \<Rightarrow> py_error + 'a build" where
  "level_loop ini cfg [] b = Inr b"
| "level_loop ini cfg ((level, mult) # rest) b =
     (case item (num_res_blocks (net b)) level of
        Inl e \<Rightarrow> Inl e
      | Inr n \<Rightarrow>
          (case res_loop ini cfg level mult (py_range n) b of
             Inl e \<Rightarrow> Inl e
           | Inr b' \<Rightarrow>
               level_loop ini cfg rest
                 (if int level \<noteq> int (length (cfg_channel_mult cfg)) - 1
                  then down_step ini cfg b' else b')))"

text \<open>\<^verbatim>\<open>enumerate(xs)\<close>\<close>

definition enumerate_list :: "'a list \<Rightarrow> (nat \<times> 'a) list" where
  "enumerate_list xs = zip [0..<length xs] xs"

text \<open>The hint-processing block \<^verbatim>\<open>self.input_hint_block\<close>.\<close>

definition hint_block :: "(nat \<Rightarrow> 'a) \<Rightarrow> config \<Rightarrow> ('a :: zero) block" where
  "hint_block ini cfg =
     (let d = cfg_dims cfg
      in [conv_nd ini d (cfg_hint_channels cfg) 16 3 1 1, SiLU,
          conv_nd ini d 16 16 3 1 1, SiLU,
          conv_nd ini d 16 32 3 1 2, SiLU,
          conv_nd ini d 32 32 3 1 1, SiLU,
          conv_nd ini d 32 96 3 1 2, SiLU,
          conv_nd ini d 96 96 3 1 1, SiLU,
          conv_nd ini d 96 256 3 1 2, SiLU,
          zero_module (conv_nd ini d 256 (cfg_model_channels cfg) 3 1 1)])"

text \<open>
  \<^verbatim>\<open>ControlNet.__init__\<close>: the checks on the arguments in their order, the first
  blocks, the two loops, the middle block. \<open>ini\<close> is the framework's initialiser.
\<close>

definition ControlNet_init :: "(nat \<Rightarrow> 'a) \<Rightarrow> config \<Rightarrow> py_error + ('a :: zero) controlnet" where
  "ControlNet_init ini cfg =
     bind_err (assert_that (cfg_use_spatial_transformer cfg \<longrightarrow> cfg_context_dim cfg \<noteq> None)) (\<lambda>u.
     bind_err (assert_that (cfg_context_dim cfg \<noteq> None \<longrightarrow> cfg_use_spatial_transformer cfg)) (\<lambda>u.
     bind_err (assert_that (cfg_num_heads cfg = - 1 \<longrightarrow> cfg_num_head_channels cfg \<noteq> - 1)) (\<lambda>u.
     bind_err (assert_that (cfg_num_head_channels cfg = - 1 \<longrightarrow> cfg_num_heads cfg \<noteq> - 1)) (\<lambda>u.
     bind_err (case cfg_num_res_blocks cfg of
                 Inl n \<Rightarrow> Inr (replicate (length (cfg_channel_mult cfg)) n)
               | Inr ns \<Rightarrow> if length ns \<noteq> length (cfg_channel_mult cfg) then Inl ValueError
                           else Inr ns) (\<lambda>nrb.
     bind_err (case cfg_disable_self_attentions cfg of
                 Some dsa \<Rightarrow> assert_that (length dsa = length (cfg_channel_mult cfg))
               | None \<Rightarrow> Inr ()) (\<lambda>u.
     bind_err (case cfg_num_attention_blocks cfg of
                 Some nab \<Rightarrow>
                   bind_err (assert_that (length nab = length nrb)) (\<lambda>u.
                   assert_that (list_all (\<lambda>i. nrb ! i \<ge> nab ! i) [0..<length nab]))
               | None \<Rightarrow> Inr ()) (\<lambda>u.
     let mc = cfg_model_channels cfg;
         time_embed_dim = mc * 4;
         b0 = \<lparr>net = \<lparr>dims = cfg_dims cfg, model_channels = mc,
                      dtype = (if cfg_use_fp16 cfg then Float16 else Float32),
                      num_res_blocks = nrb,
                      time_embed = [Linear mc time_embed_dim, SiLU, Linear time_embed_dim time_embed_dim],
                      input_blocks = [[conv_nd ini (cfg_dims cfg) (cfg_in_channels cfg) mc 3 1 1]],
                      zero_convs = [make_zero_conv ini (cfg_dims cfg) mc],
                      input_hint_block = hint_block ini cfg,
                      middle_block = [], middle_block_out = [],
                      feature_size = mc\<rparr>,
               input_block_chans = [mc], ch = mc, ds = 1, num_heads = cfg_num_heads cfg\<rparr>
     in bind_err (level_loop ini cfg (enumerate_list (cfg_channel_mult cfg)) b0) (\<lambda>b.
        bind_err (head_dims cfg (ch b) (num_heads b)) (\<lambda>(n_heads', dim_head).
        Inr ((net b)
               \<lparr>middle_block :=
                  [ResBlock (ch b) (ch b) False,
                   attention_layer cfg (ch b) n_heads' dim_head (cfg_disable_middle_self_attn cfg),
                   ResBlock (ch b) (ch b) False],
                middle_block_out := make_zero_conv ini (dims (net b)) (ch b),
                feature_size := feature_size (net b) + ch b\<rparr>))))))))))"

subsection \<open>Tensors and the calls into the framework\<close>

text \<open>
  Tensors (type \<open>'t\<close>) and what PyTorch and the host framework compute on them are not
  decided in this repository: they are the fields of \<open>torch\<close>. \<open>t_shape\<close> is
  \<^verbatim>\<open>x.shape\<close>; \<open>t_interpolate\<close> is \<^verbatim>\<open>torch.nn.functional.interpolate(hint, size=size,
  mode="nearest")\<close>; \<open>t_add\<close>, \<open>t_mul\<close>, \<open>t_cat\<close> are \<^verbatim>\<open>+\<close>, \<^verbatim>\<open>*\<close> and
  \<^verbatim>\<open>torch.cat([a, b], dim=1)\<close>; \<open>t_type\<close> is \<^verbatim>\<open>x.type(dtype)\<close>, \<open>t_dtype\<close> is
  \<^verbatim>\<open>x.dtype\<close>; \<open>t_timestep_embedding\<close> is \<^verbatim>\<open>timestep_embedding(timesteps, channels,
  repeat_only=False)\<close>, which is handed \<^verbatim>\<open>timesteps\<close> as the caller gave it (maybe
  \<^verbatim>\<open>None\<close>) and may raise; \<open>t_call m h emb context\<close> and \<open>t_call1 m x\<close> call a module
  of the host network (type \<open>'m\<close>); \<open>t_seq\<close> and \<open>t_seq1\<close> call a block of the control
  network. Failures inside these calls (shapes that do not fit) are outside the model.
\<close>

record ('t, 'm, 'a, 'w) torch =
  t_shape :: "'t \<Rightarrow> nat list"
  t_interpolate :: "'t \<Rightarrow> nat list \<Rightarrow> 't"
  t_unsqueeze0 :: "'t \<Rightarrow> 't"
  t_squeeze0 :: "'t \<Rightarrow> 't"
  t_add :: "'t \<Rightarrow> 't \<Rightarrow> 't"
  t_mul :: "'t \<Rightarrow> 'w \<Rightarrow> 't"
  t_cat :: "'t \<Rightarrow> 't \<Rightarrow> 't"
  t_type :: "'t \<Rightarrow> dtype \<Rightarrow> 't"
  t_dtype :: "'t \<Rightarrow> dtype"
  t_timestep_embedding :: "'t option \<Rightarrow> int \<Rightarrow> py_error + 't"
  t_call :: "'m \<Rightarrow> 't \<Rightarrow> 't \<Rightarrow> 't \<Rightarrow> 't"
  t_call1 :: "'m \<Rightarrow> 't \<Rightarrow> 't"
  t_seq :: "'a block \<Rightarrow> 't \<Rightarrow> 't \<Rightarrow> 't \<Rightarrow> 't"
  t_seq1 :: "'a block \<Rightarrow> 't \<Rightarrow> 't"

text \<open>
  The module-level \<^verbatim>\<open>align(hint, size)\<close>: \<^verbatim>\<open>b, c, h1, w1 = hint.shape\<close> and
  \<^verbatim>\<open>h, w = size\<close> raise \<^verbatim>\<open>ValueError\<close> when the number of values does not fit.
\<close>

definition align :: "('t, 'm, 'a, 'w) torch \<Rightarrow> 't \<Rightarrow> nat list \<Rightarrow> py_error + 't" where
  "align env hint sz =
     (case t_shape env hint of
        [b, c, h1, w1] \<Rightarrow>
          (case sz of
             [h, w] \<Rightarrow> Inr (if h \<noteq> h1 \<or> w \<noteq> w1 then t_interpolate env hint sz else hint)
           | _ \<Rightarrow> Inl ValueError)
      | _ \<Rightarrow> Inl ValueError)"

text \<open>The method \<^verbatim>\<open>ControlNet.align(self, hint, h, w)\<close>.\<close>

definition ControlNet_align :: "('t, 'm, 'a, 'w) torch \<Rightarrow> 't \<Rightarrow> nat \<Rightarrow> nat \<Rightarrow> py_error + 't" where
  "ControlNet_align env hint h w =
     (case t_shape env hint of
        [c, h1, w1] \<Rightarrow>
          if h \<noteq> h1 \<or> w \<noteq> w1
          then bind_err (align env (t_unsqueeze0 env hint) [h, w]) (\<lambda>hint'. Inr (t_squeeze0 env hint'))
          else Inr hint
      | _ \<Rightarrow> Inl ValueError)"

text \<open>\<^verbatim>\<open>shape[-2:]\<close>\<close>

definition last_two :: "nat list \<Rightarrow> nat list" where
  "last_two sh = drop (length sh - 2) sh"

text \<open>\<^verbatim>\<open>shape[-1]\<close>\<close>

definition last_dim :: "nat list \<Rightarrow> py_error + nat" where
  "last_dim sh = (if sh = [] then Inl IndexError else Inr (last sh))"

subsection \<open>ControlNet.forward\<close>

text \<open>
  \<^verbatim>\<open>for module, zero_conv in zip(self.input_blocks, self.zero_convs)\<close> with the state
  \<^verbatim>\<open>guided_hint\<close>, \<^verbatim>\<open>h\<close>, \<^verbatim>\<open>outs\<close>.
\<close>

fun encoder_loop ::
  "('t, 'm, 'a, 'w) torch \<Rightarrow> 't \<Rightarrow> 't \<Rightarrow> ('a block \<times> 'a block) list \<Rightarrow>
   't option \<times> 't \<times> 't list \<Rightarrow> 't option \<times> 't \<times> 't list" where
  "encoder_loop env emb context [] st = st"
| "encoder_loop env emb context ((module, zero_conv) # rest) (guided_hint, h, outs) =
     (let h' = (case guided_hint of
                  Some g \<Rightarrow> t_add env (t_seq env module h emb context) g
                | None \<Rightarrow> t_seq env module h emb context)
      in encoder_loop env emb context rest
           (None, h', outs @ [t_seq env zero_conv h' emb context]))"

definition ControlNet_forward ::
  "('t, 'm, 'a, 'w) torch \<Rightarrow> 'a controlnet \<Rightarrow> 't \<Rightarrow> 't \<Rightarrow> 't option \<Rightarrow> 't \<Rightarrow> py_error + 't list" where
  "ControlNet_forward env self x hint timesteps context =
     bind_err (t_timestep_embedding env timesteps (model_channels self)) (\<lambda>t_emb.
     let emb = t_seq1 env (time_embed self) t_emb;
         guided_hint = t_seq env (input_hint_block self) hint emb context
     in (case last_two (t_shape env x) of
           [h1, w1] \<Rightarrow>
             bind_err (ControlNet_align env guided_hint h1 w1) (\<lambda>guided_hint'.
             let h = t_type env x (dtype self);
                 (g, h', outs) =
                   encoder_loop env emb context (zip (input_blocks self) (zero_convs self))
                     (Some guided_hint', h, []);
                 h'' = t_seq env (middle_block self) h' emb context
             in Inr (outs @ [t_seq env (middle_block_out self) h'' emb context]))
         | _ \<Rightarrow> Inl ValueError))"

subsection \<open>The hooked forward of the host network\<close>

text \<open>\<^verbatim>\<open>xs.pop()\<close>: the last element and the list without it.\<close>

definition pop :: "'a list \<Rightarrow> py_error + ('a \<times> 'a list)" where
  "pop xs = (if xs = [] then Inl IndexError else Inr (last xs, butlast xs))"

text \<open>
  The value of \<^verbatim>\<open>only_mid_control\<close> for one call: the wrapper's flag, replaced by the
  setting \<^verbatim>\<open>control_net_only_midctrl_hires\<close> (\<^verbatim>\<open>True\<close> when the setting is absent) if
  \<^verbatim>\<open>abs(x.shape[-1] - outer.hint_cond.shape[-1] // 8) > 8\<close>. Reading \<^verbatim>\<open>.shape\<close> of
  \<^verbatim>\<open>None\<close> raises \<^verbatim>\<open>AttributeError\<close>.
\<close>

definition call_only_mid_control ::
  "('t, 'm, 'a, 'w) torch \<Rightarrow> (string \<rightharpoonup> bool) \<Rightarrow> ('cn, 't, 'w) plugable \<Rightarrow> 't \<Rightarrow> py_error + bool" where
  "call_only_mid_control env opts outr x =
     bind_err (last_dim (t_shape env x)) (\<lambda>xw.
     bind_err (case hint_cond outr of
                 None \<Rightarrow> Inl AttributeError
               | Some hint \<Rightarrow> last_dim (t_shape env hint)) (\<lambda>hw.
     Inr (if \<bar>int xw - int hw div 8\<bar> > 8
          then (case opts ''control_net_only_midctrl_hires'' of None \<Rightarrow> True | Some b \<Rightarrow> b)
          else only_mid_control outr)))"

text \<open>\<^verbatim>\<open>for module in self.input_blocks: h = module(h, emb, context); hs.append(h)\<close>\<close>

fun host_encoder ::
  "('t, 'm, 'a, 'w) torch \<Rightarrow> 't \<Rightarrow> 't \<Rightarrow> 'm list \<Rightarrow> 't \<times> 't list \<Rightarrow> 't \<times> 't list" where
  "host_encoder env emb context [] st = st"
| "host_encoder env emb context (module # rest) (h, hs) =
     (let h' = t_call env module h emb context
      in host_encoder env emb context rest (h', hs @ [h']))"

text \<open>
  \<^verbatim>\<open>for i, module in enumerate(self.output_blocks)\<close> with the state \<^verbatim>\<open>h\<close>, \<^verbatim>\<open>hs\<close> and
  the control stack \<^verbatim>\<open>control\<close>. In \<^verbatim>\<open>hs.pop(), control.pop()\<close> the left pop runs first.
\<close>

fun decoder_loop ::
  "('t, 'm, 'a, 'w) torch \<Rightarrow> bool \<Rightarrow> 'w \<Rightarrow> 't \<Rightarrow> 't \<Rightarrow> 'm list \<Rightarrow>
   't \<times> 't list \<times> 't list \<Rightarrow> py_error + ('t \<times> 't list \<times> 't list)" where
  "decoder_loop env omc wt emb context [] st = Inr st"
| "decoder_loop env omc wt emb context (module # rest) (h, hs, ctl) =
     (if omc then
        (case pop hs of
           Inl e \<Rightarrow> Inl e
         | Inr (hs_top, hs') \<Rightarrow>
             decoder_loop env omc wt emb context rest
               (t_call env module (t_cat env h hs_top) emb context, hs', ctl))
      else
        (case pop hs of
           Inl e \<Rightarrow> Inl e
         | Inr (hs_input, hs') \<Rightarrow>
             (case pop ctl of
                Inl e \<Rightarrow> Inl e
              | Inr (control_input, ctl') \<Rightarrow>
                  (case align env h (last_two (t_shape env hs_input)) of
                     Inl e \<Rightarrow> Inl e
                   | Inr h1 \<Rightarrow>
                       decoder_loop env omc wt emb context rest
                         (t_call env module
                            (t_cat env h1 (t_add env hs_input (t_mul env control_input wt)))
                            emb context,
                          hs', ctl')))))"

text \<open>
  The inner \<^verbatim>\<open>forward(self, x, timesteps, context)\<close> of \<^verbatim>\<open>hook\<close> once
  \<^verbatim>\<open>only_mid_control\<close> is decided (\<open>omc\<close>), up to the end of the decoder loop: the
  decoder state \<^verbatim>\<open>h\<close>, what is left of \<^verbatim>\<open>hs\<close>, and what is left of the control stack.
\<close>

definition hooked_decode ::
  "('t, 'm, 'a, 'w) torch \<Rightarrow> bool \<Rightarrow> ('a controlnet, 't, 'w, 'f, 'm, dtype) session \<Rightarrow>
   't \<Rightarrow> 't option \<Rightarrow> 't \<Rightarrow> py_error + ('t \<times> 't list \<times> 't list)" where
  "hooked_decode env omc s x timesteps context =
     (case hint_cond (outer s) of
        None \<Rightarrow> Inl AttributeError
      | Some hint \<Rightarrow>
          bind_err (ControlNet_forward env (control_model (outer s)) x hint timesteps context) (\<lambda>ctl.
          bind_err (assert_that (timesteps \<noteq> None)) (\<lambda>u.
          bind_err (t_timestep_embedding env timesteps (unet_model_channels (host s))) (\<lambda>t_emb.
          let emb = t_call1 env (unet_time_embed (host s)) t_emb;
              h0 = t_type env x (unet_dtype (host s));
              (h1, hs) = host_encoder env emb context (unet_input_blocks (host s)) (h0, []);
              h2 = t_call env (unet_middle_block (host s)) h1 emb context
          in bind_err (pop ctl) (\<lambda>(mid, ctl').
             decoder_loop env omc (weight (outer s)) emb context (unet_output_blocks (host s))
               (t_add env h2 mid, hs, ctl'))))))"

definition hook_forward_state ::
  "('t, 'm, 'a, 'w) torch \<Rightarrow> (string \<rightharpoonup> bool) \<Rightarrow> ('a controlnet, 't, 'w, 'f, 'm, dtype) session \<Rightarrow>
   't \<Rightarrow> 't option \<Rightarrow> 't \<Rightarrow> py_error + ('t \<times> 't list \<times> 't list)" where
  "hook_forward_state env opts s x timesteps context =
     bind_err (call_only_mid_control env opts (outer s) x) (\<lambda>omc.
     hooked_decode env omc s x timesteps context)"

text \<open>What the hooked forward returns: \<^verbatim>\<open>h = h.type(x.dtype); return self.out(h)\<close>.\<close>

definition hook_forward ::
  "('t, 'm, 'a, 'w) torch \<Rightarrow> (string \<rightharpoonup> bool) \<Rightarrow> ('a controlnet, 't, 'w, 'f, 'm, dtype) session \<Rightarrow>
   't \<Rightarrow> 't option \<Rightarrow> 't \<Rightarrow> py_error + 't" where
  "hook_forward env opts s x timesteps context =
     bind_err (hook_forward_state env opts s x timesteps context) (\<lambda>(h, hs, ctl).
     Inr (t_call1 env (unet_out (host s)) (t_type env h (t_dtype env x))))"

text \<open>
  Calling the host network: what the attribute \<^verbatim>\<open>forward\<close> holds decides what runs.
  \<open>native f\<close> is the host's own computation for \<open>ClassForward f\<close>. For \<open>Forward2\<close> the
  closure \<^verbatim>\<open>forward2\<close> runs the hooked forward; the moves of the control network
  between devices that \<^verbatim>\<open>forward2\<close> wraps around it change no value and are not
  modelled.
\<close>

definition call_forward ::
  "('t, 'm, 'a, 'w) torch \<Rightarrow> (string \<rightharpoonup> bool) \<Rightarrow> ('f \<Rightarrow> 't \<Rightarrow> 't option \<Rightarrow> 't \<Rightarrow> py_error + 't) \<Rightarrow>
   ('a controlnet, 't, 'w, 'f, 'm, dtype) session \<Rightarrow> 't \<Rightarrow> 't option \<Rightarrow> 't \<Rightarrow> py_error + 't" where
  "call_forward env opts native s x timesteps context =
     (case forward (host s) of
        ClassForward f \<Rightarrow> native f x timesteps context
      | Forward2 \<Rightarrow> hook_forward env opts s x timesteps context)"

text \<open>
  The two lists the forward pass zips have the same length, every zero convolution is one
  zero-initialised convolution, and there is at least one encoder block.
\<close>

definition paired :: "('a :: zero) controlnet \<Rightarrow> bool" where
  "paired self = (length (zero_convs self) = length (input_blocks self)
     \<and> list_all zero_block (zero_convs self) \<and> input_blocks self \<noteq> [])"

text \<open>
  \<^verbatim>\<open>self.control_model.load_state_dict(state_dict)\<close> overwrites the values of the
  parameters of the constructed network; it adds and removes no module. So the network
  a wrapper holds has the block counts of the network the constructor returned.
\<close>

definition same_block_counts :: "'a controlnet \<Rightarrow> 'a controlnet \<Rightarrow> bool" where
  "same_block_counts built loaded =
     (length (input_blocks loaded) = length (input_blocks built)
      \<and> length (zero_convs loaded) = length (zero_convs built))"

section \<open>Small instances\<close>

text \<open>
  An environment in which a tensor is just its shape and every module keeps the shape
  of its input: enough to run the shape checks, the loops and the stacks of the two
  forward passes on concrete inputs.
\<close>

definition shape_torch :: "(nat list, nat, int, nat) torch" where
  "shape_torch =
     \<lparr>t_shape = (\<lambda>t. t),
      t_interpolate = (\<lambda>t sz. take 2 t @ sz),
      t_unsqueeze0 = (\<lambda>t. 1 # t),
      t_squeeze0 = tl,
      t_add = (\<lambda>a b. a),
      t_mul = (\<lambda>a w. a),
      t_cat = (\<lambda>a b. a),
      t_type = (\<lambda>t d. t),
      t_dtype = (\<lambda>t. Float32),
      t_timestep_embedding = (\<lambda>ts n. case ts of None \<Rightarrow> Inl TypeError | Some t \<Rightarrow> Inr t),
      t_call = (\<lambda>m h emb c. h),
      t_call1 = (\<lambda>m v. v),
      t_seq = (\<lambda>b h emb c. h),
      t_seq1 = (\<lambda>b v. v)\<rparr>"

text \<open>A configuration with one level and one residual block, and no attention.\<close>

definition tiny_config :: config where
  "tiny_config =
     \<lparr>cfg_image_size = 32, cfg_in_channels = 4, cfg_model_channels = 1, cfg_hint_channels = 3,
      cfg_num_res_blocks = Inl 1, cfg_attention_resolutions = [], cfg_channel_mult = [1],
      cfg_dims = 2, cfg_use_fp16 = False, cfg_num_heads = 1, cfg_num_head_channels = - 1,
      cfg_num_heads_upsample = - 1, cfg_resblock_updown = False,
      cfg_use_spatial_transformer = False, cfg_context_dim = None, cfg_n_embed = None,
      cfg_legacy = False, cfg_disable_self_attentions = None, cfg_num_attention_blocks = None,
      cfg_disable_middle_self_attn = False\<rparr>"

text \<open>The control network that the constructor builds from \<open>tiny_config\<close>.\<close>

definition tiny_net :: "int controlnet" where
  "tiny_net =
     \<lparr>dims = 2, model_channels = 1, dtype = Float32, num_res_blocks = [1],
      time_embed = [Linear 1 4, SiLU, Linear 4 4],
      input_blocks = [[conv_nd (\<lambda>k. 1) 2 4 1 3 1 1], [ResBlock 1 1 False]],
      zero_convs = [make_zero_conv (\<lambda>k. 1) 2 1, make_zero_conv (\<lambda>k. 1) 2 1],
      input_hint_block = hint_block (\<lambda>k. 1) tiny_config,
      middle_block = [ResBlock 1 1 False, AttentionBlock 1 1 1, ResBlock 1 1 False],
      middle_block_out = make_zero_conv (\<lambda>k. 1) 2 1,
      feature_size = 3\<rparr>"

text \<open>
  A wrapper holding \<open>tiny_net\<close> with a 64 by 64 hint, hooked on a host network with two
  encoder blocks and two decoder blocks.
\<close>

definition tiny_session :: "(int controlnet, nat list, nat, unit, nat, dtype) session" where
  "tiny_session =
     \<lparr>outer = \<lparr>control_model = tiny_net, lowvram = False, weight = 1, only_mid_control = False,
                control = None, hint_cond = Some [3, 64, 64]\<rparr>,
      host = \<lparr>forward = Forward2, original_forward = Some (ClassForward ()),
               unet_input_blocks = [0, 1], unet_middle_block = 2, unet_output_blocks = [3, 4],
               unet_out = 5, unet_time_embed = 6, unet_model_channels = 1,
               unet_dtype = Float32\<rparr>\<rparr>"

section \<open>Properties of scripts/processor.py\<close>

lemma threshold_pixel_two_level:
  "threshold_pixel p = (0, 0, 0) \<or> threshold_pixel p = (255, 255, 255)"
  by (simp add: threshold_pixel_def)

lemma threshold_pixel_twice: "threshold_pixel (threshold_pixel p) = invert_pixel (threshold_pixel p)"
  by (cases p) (simp add: threshold_pixel_def invert_pixel_def)

lemma threshold_pixel_thrice: "threshold_pixel (threshold_pixel (threshold_pixel p)) = threshold_pixel p"
  by (cases p) (simp add: threshold_pixel_def)

lemma simple_scribble_two_level_aux: "two_level (map (map threshold_pixel) img)"
  using threshold_pixel_two_level by (simp add: two_level_def list_all_iff)

text \<open>
  C7 (as stated): \<^verbatim>\<open>simple_scribble\<close> applied twice gives the same image as applied once.
  It fails on the one-pixel black image, with the two utilities acting as the identity:
  the first pass turns the pixel to 255, the second pass sees a minimum of 255, which is
  not below 127, and turns it back to 0.
\<close>

theorem simple_scribble_not_idempotent:
  "simple_scribble id (\<lambda>i r. i) (simple_scribble id (\<lambda>i r. i) [[(0, 0, 0)]] 512) 512
     \<noteq> simple_scribble id (\<lambda>i r. i) [[(0, 0, 0)]] 512"
  by (simp add: simple_scribble_def threshold_pixel_def)

text \<open>
  C7 (amended): where \<^verbatim>\<open>HWC3\<close> and \<^verbatim>\<open>resize_image\<close> act as the identity on the output
  of \<^verbatim>\<open>simple_scribble\<close> and on its complement, that output only has pixels 0 and 255, a
  second application inverts it (every 255 becomes 0 and every 0 becomes 255), and a
  third application gives the first output again.
\<close>

theorem simple_scribble_twice_inverts:
  assumes "out = simple_scribble HWC3 resize_image img res"
    and "HWC3 out = out" and "resize_image out res = out"
    and "HWC3 (map (map invert_pixel) out) = map (map invert_pixel) out"
    and "resize_image (map (map invert_pixel) out) res = map (map invert_pixel) out"
  shows "two_level out
    \<and> simple_scribble HWC3 resize_image out res = map (map invert_pixel) out
    \<and> simple_scribble HWC3 resize_image (simple_scribble HWC3 resize_image out res) res = out"
proof -
  have out: "out = map (map threshold_pixel) (resize_image (HWC3 img) res)"
    using assms(1) by (simp add: simple_scribble_def)
  have lvl: "two_level out"
    unfolding out by (rule simple_scribble_two_level_aux)
  have twice: "simple_scribble HWC3 resize_image out res = map (map invert_pixel) out"
  proof -
    have "simple_scribble HWC3 resize_image out res = map (map threshold_pixel) out"
      using assms(2,3) by (simp add: simple_scribble_def)
    also have "\<dots> = map (map invert_pixel) out"
      unfolding out by (simp add: threshold_pixel_twice)
    finally show ?thesis .
  qed
  have "simple_scribble HWC3 resize_image (map (map invert_pixel) out) res
      = map (map threshold_pixel) (map (map invert_pixel) out)"
    using assms(4,5) by (simp add: simple_scribble_def)
  also have "\<dots> = out"
    unfolding out by (simp add: threshold_pixel_twice [symmetric] threshold_pixel_thrice)
  finally have thrice:
    "simple_scribble HWC3 resize_image (simple_scribble HWC3 resize_image out res) res = out"
    by (simp add: twice)
  from lvl twice thrice show ?thesis by simp
qed

theorem simple_scribble_twice_inverts_witness:
  "two_level [[(255, 255, 255), (0, 0, 0)]]
    \<and> simple_scribble id (\<lambda>i r. i) [[(255, 255, 255), (0, 0, 0)]] 512 = [[(0, 0, 0), (255, 255, 255)]]
    \<and> simple_scribble id (\<lambda>i r. i)
        (simple_scribble id (\<lambda>i r. i) [[(255, 255, 255), (0, 0, 0)]] 512) 512
      = [[(255, 255, 255), (0, 0, 0)]]"
proof -
  have "[[(255, 255, 255), (0, 0, 0)]]
      = simple_scribble id (\<lambda>i r. i) [[(0, 0, 0), (255, 255, 255)]] 512"
    by (simp add: simple_scribble_def threshold_pixel_def)
  from simple_scribble_twice_inverts [OF this] show ?thesis
    by (simp add: invert_pixel_def simple_scribble_def threshold_pixel_def)
qed

text \<open>
  C6 (as stated): after a detection operation has filled its module-level slot, the
  unload operation resets the slot to \<^verbatim>\<open>None\<close>. It does not: after \<^verbatim>\<open>hed\<close> and then
  \<^verbatim>\<open>unload_hed\<close> the slot \<^verbatim>\<open>model_hed\<close> still holds the callable. (Here the annotator
  state is a number, a detector call returns it and leaves it, and unloading sets it to 0.)
\<close>

theorem unload_hed_keeps_slot:
  "model_hed (unload_hed (\<lambda>x. 0)
      (snd (hed (\<lambda>d img x. (x, x)) (1 :: nat) id (\<lambda>i r. i) [] 512 (fresh_process (7 :: nat)))))
    \<noteq> None"
  by (simp add: unload_hed_def hed_def fresh_process_def)

text \<open>
  C6 (amended): for hed, mlsd, midas, openpose and uniformer, the unload operation on
  an empty slot changes nothing of the process state (and has no failing branch); on a
  filled slot it calls the annotator package's \<^verbatim>\<open>unload_*_model\<close> and leaves every
  module-level slot as it was, so the slot stays filled; and the next \<^verbatim>\<open>hed\<close> call
  after \<^verbatim>\<open>unload_hed\<close> (and likewise for the four others) does not import again: it
  calls the callable the slot already held, in the annotator state that
  \<^verbatim>\<open>unload_hed_model\<close> left.
\<close>

theorem unload_noop_or_delegates:
  fixes s :: "('d, 'x) process"
  shows "(model_hed s = None \<longrightarrow> unload_hed u s = s)
    \<and> (model_mlsd s = None \<longrightarrow> unload_mlsd u s = s)
    \<and> (model_midas s = None \<longrightarrow> unload_midas u s = s)
    \<and> (model_openpose s = None \<longrightarrow> unload_openpose u s = s)
    \<and> (model_uniformer s = None \<longrightarrow> unload_uniformer u s = s)
    \<and> (model_hed s \<noteq> None \<longrightarrow> unload_hed u s = s\<lparr>annotator := u (annotator s)\<rparr>)
    \<and> (model_mlsd s \<noteq> None \<longrightarrow> unload_mlsd u s = s\<lparr>annotator := u (annotator s)\<rparr>)
    \<and> (model_midas s \<noteq> None \<longrightarrow> unload_midas u s = s\<lparr>annotator := u (annotator s)\<rparr>)
    \<and> (model_openpose s \<noteq> None \<longrightarrow> unload_openpose u s = s\<lparr>annotator := u (annotator s)\<rparr>)
    \<and> (model_uniformer s \<noteq> None \<longrightarrow> unload_uniformer u s = s\<lparr>annotator := u (annotator s)\<rparr>)
    \<and> model_hed (unload_hed u s) = model_hed s
    \<and> model_mlsd (unload_mlsd u s) = model_mlsd s
    \<and> model_midas (unload_midas u s) = model_midas s
    \<and> model_openpose (unload_openpose u s) = model_openpose s
    \<and> model_uniformer (unload_uniformer u s) = model_uniformer s
    \<and> (model_hed s = Some d \<longrightarrow>
         hed run apply_hed HWC3 resize_image img res (unload_hed u s)
           = (fst (run d (resize_image (HWC3 img) res) (u (annotator s))),
              s\<lparr>annotator := snd (run d (resize_image (HWC3 img) res) (u (annotator s)))\<rparr>))
    \<and> (model_uniformer s = Some d \<longrightarrow>
         uniformer run apply_uniformer HWC3 resize_image img res (unload_uniformer u s)
           = (fst (run d (resize_image (HWC3 img) res) (u (annotator s))),
              s\<lparr>annotator := snd (run d (resize_image (HWC3 img) res) (u (annotator s)))\<rparr>))
    \<and> (model_mlsd s = Some d \<longrightarrow>
         mlsd run3 apply_mlsd HWC3 resize_image img res thr_v thr_d (unload_mlsd u s)
           = (fst (run3 d (resize_image (HWC3 img) res, thr_v, thr_d) (u (annotator s))),
              s\<lparr>annotator :=
                   snd (run3 d (resize_image (HWC3 img) res, thr_v, thr_d) (u (annotator s)))\<rparr>))
    \<and> (model_midas s = Some d \<longrightarrow>
         midas run2 apply_midas HWC3 resize_image img res a (unload_midas u s)
           = (fst (fst (run2 d (resize_image (HWC3 img) res, a) (u (annotator s)))),
              s\<lparr>annotator := snd (run2 d (resize_image (HWC3 img) res, a) (u (annotator s)))\<rparr>))
    \<and> (model_openpose s = Some d \<longrightarrow>
         openpose runp apply_openpose HWC3 resize_image img res has_hand (unload_openpose u s)
           = (fst (fst (runp d (resize_image (HWC3 img) res, has_hand) (u (annotator s)))),
              s\<lparr>annotator :=
                   snd (runp d (resize_image (HWC3 img) res, has_hand) (u (annotator s)))\<rparr>))"
  by (simp add: unload_hed_def unload_mlsd_def unload_midas_def unload_openpose_def
      unload_uniformer_def hed_def uniformer_def mlsd_def midas_def openpose_def
      split: prod.split)

theorem unload_noop_or_delegates_witness:
  "unload_hed (\<lambda>x. 0) (fresh_process (7 :: nat) :: (nat, nat) process) = fresh_process 7
    \<and> unload_mlsd (\<lambda>x. 0) (fresh_process (7 :: nat) :: (nat, nat) process) = fresh_process 7
    \<and> unload_midas (\<lambda>x. 0) (fresh_process (7 :: nat) :: (nat, nat) process) = fresh_process 7
    \<and> unload_openpose (\<lambda>x. 0) (fresh_process (7 :: nat) :: (nat, nat) process) = fresh_process 7
    \<and> unload_uniformer (\<lambda>x. 0) (fresh_process (7 :: nat) :: (nat, nat) process) = fresh_process 7
    \<and> unload_hed (\<lambda>x. 0) ((fresh_process (7 :: nat))\<lparr>model_hed := Some (1 :: nat)\<rparr>)
        = (fresh_process 0)\<lparr>model_hed := Some 1\<rparr>
    \<and> hed (\<lambda>d img x. (d + x, Suc x)) (2 :: nat) id (\<lambda>i r. i) [] 512
        (unload_hed (\<lambda>x. 0) ((fresh_process (7 :: nat))\<lparr>model_hed := Some (1 :: nat)\<rparr>))
        = (1 :: nat, (fresh_process 1)\<lparr>model_hed := Some 1\<rparr>)"
  using unload_noop_or_delegates [of "fresh_process (7 :: nat) :: (nat, nat) process" "\<lambda>x. 0"]
    unload_noop_or_delegates [of "(fresh_process (7 :: nat))\<lparr>model_hed := Some (1 :: nat)\<rparr>"
      "\<lambda>x. 0" 1 "\<lambda>d img x. (d + x, Suc x)" 2 id "\<lambda>i r. i" "[]" 512]
  by (simp add: fresh_process_def unload_hed_def unload_mlsd_def unload_midas_def
      unload_openpose_def unload_uniformer_def hed_def)
section \<open>Properties of scripts/cldm.py: reconciliation and the wrapper\<close>

lemma p_new_diff:
  "map_of sd key = Some p \<Longrightarrow>
   p_new True sd unet key = Inr (case map_of unet (key_name key) of Some b \<Rightarrow> (p + b, 1) | None \<Rightarrow> (p, 0))"
  by (simp add: p_new_def split: option.split)

lemma transfer_loop_lookup:
  "transfer_loop d sd unet keys (final, c) = Inr (final', c') \<Longrightarrow>
     (k \<in> set keys \<and> startswith k ''control_model.'' \<longrightarrow>
        (\<exists>v n. p_new d sd unet k = Inr (v, n) \<and> map_of final' k = Some v))
   \<and> (\<not> (k \<in> set keys \<and> startswith k ''control_model.'') \<longrightarrow> map_of final' k = map_of final k)"
proof (induction keys arbitrary: final c)
  case Nil
  then show ?case by simp
next
  case (Cons key keys)
  show ?case
  proof (cases "startswith key ''control_model.''")
    case False
    with Cons.prems have "transfer_loop d sd unet keys (final, c) = Inr (final', c')" by simp
    from Cons.IH [OF this] False show ?thesis by auto
  next
    case True
    with Cons.prems obtain v n where pn: "p_new d sd unet key = Inr (v, n)"
      and rest: "transfer_loop d sd unet keys (AList.update key v final, c + n) = Inr (final', c')"
      by (auto split: sum.splits)
    from Cons.IH [OF rest] pn True show ?thesis
      by (auto simp: update_conv')
  qed
qed

lemma transfer_loop_succeeds:
  "(\<forall>k \<in> set keys. startswith k ''control_model.'' \<longrightarrow> (\<exists>r. p_new d sd unet k = Inr r)) \<Longrightarrow>
   \<exists>res. transfer_loop d sd unet keys acc = Inr res"
proof (induction keys arbitrary: acc)
  case Nil
  then show ?case by simp
next
  case (Cons key keys)
  obtain final c where acc: "acc = (final, c)" by (cases acc)
  show ?case
  proof (cases "startswith key ''control_model.''")
    case False
    with Cons show ?thesis by (simp add: acc)
  next
    case True
    with Cons.prems obtain v n where pn: "p_new d sd unet key = Inr (v, n)" by fastforce
    from Cons.IH [of "(AList.update key v final, c + n)"] Cons.prems
    show ?thesis by (simp add: acc True pn)
  qed
qed

lemma transfer_loop_fails:
  "k \<in> set keys \<Longrightarrow> startswith k ''control_model.'' \<Longrightarrow> p_new d sd unet k = Inl e \<Longrightarrow>
   \<exists>e'. transfer_loop d sd unet keys acc = Inl e'"
proof (induction keys arbitrary: acc)
  case Nil
  then show ?case by simp
next
  case (Cons key keys)
  obtain final c where acc: "acc = (final, c)" by (cases acc)
  show ?case
  proof (cases "startswith key ''control_model.''")
    case False
    with Cons show ?thesis by (auto simp: acc)
  next
    case True
    show ?thesis
    proof (cases "p_new d sd unet key")
      case (Inl e0)
      then show ?thesis by (simp add: acc True)
    next
      case (Inr r)
      then have "key \<noteq> k" using Cons.prems by auto
      with Cons.prems have "k \<in> set keys" by simp
      from Cons.IH [OF this Cons.prems(2,3)] Inr show ?thesis
        by (cases r) (simp add: acc True)
    qed
  qed
qed

lemma in_keys_iff: "k \<in> set (map fst sd) \<longleftrightarrow> map_of sd k \<noteq> None"
  by (simp add: map_of_eq_None_iff)


text \<open>
  The lookup key of a key \<^verbatim>\<open>control_model.\<close>\<open>rest\<close> is \<open>rest\<close> with every occurrence of
  \<^verbatim>\<open>model.\<close> removed; it is \<open>rest\<close> itself when \<^verbatim>\<open>model.\<close> does not occur in \<open>rest\<close>,
  as for every parameter name of the control network.
\<close>

lemma key_name_control_model: "key_name (''control_model.'' @ rest) = str_replace ''model.'' [] rest"
  by (simp add: key_name_def get_node_name_def)

lemma str_replace_absent:
  "old \<noteq> [] \<Longrightarrow> (\<forall>i. take (length old) (drop i s) \<noteq> old) \<Longrightarrow> str_replace old new s = s"
proof (induction s)
  case Nil
  then show ?case by simp
next
  case (Cons c cs)
  from Cons.prems(2) have "take (length old) (drop 0 (c # cs)) \<noteq> old" by blast
  then have here: "take (length old) (c # cs) \<noteq> old" by simp
  have "\<forall>i. take (length old) (drop i cs) \<noteq> old"
  proof
    fix i from Cons.prems(2) have "take (length old) (drop (Suc i) (c # cs)) \<noteq> old" by blast
    then show "take (length old) (drop i cs) \<noteq> old" by simp
  qed
  with Cons.IH Cons.prems(1) have "str_replace old new cs = cs" by simp
  with here Cons.prems(1) show ?case by simp
qed

lemma key_name_plain:
  assumes "\<forall>i. take (length ''model.'') (drop i rest) \<noteq> ''model.''"
  shows "key_name (''control_model.'' @ rest) = rest"
proof -
  have "str_replace ''model.'' [] rest = rest"
  proof (rule str_replace_absent)
    show "''model.'' \<noteq> []" by simp
    show "\<forall>i. take (length ''model.'') (drop i rest) \<noteq> ''model.''" by (rule assms)
  qed
  then show ?thesis by (simp only: key_name_control_model)
qed

lemma hook_forward_ignores_saved:
  "hook_forward env opts (s\<lparr>host := (host s)\<lparr>original_forward := v\<rparr>\<rparr>) x timesteps ctx
     = hook_forward env opts s x timesteps ctx"
  by (simp add: hook_forward_def hook_forward_state_def hooked_decode_def Let_def
      cong: option.case_cong)

lemma call_forward_ignores_saved:
  "call_forward env opts native (s\<lparr>host := (host s)\<lparr>original_forward := v\<rparr>\<rparr>) x timesteps ctx
     = call_forward env opts native s x timesteps ctx"
  by (simp add: call_forward_def hook_forward_ignores_saved split: forward_fn.split)

text \<open>
  C1: \<^verbatim>\<open>restore\<close> on a host network without the attribute \<^verbatim>\<open>_original_forward\<close> raises
  nothing and leaves the session, and so the network's \<^verbatim>\<open>forward\<close>, as it is. For every
  host network (hooked before or not), \<^verbatim>\<open>hook\<close> followed by \<^verbatim>\<open>restore\<close> raises nothing,
  puts back in \<^verbatim>\<open>forward\<close> exactly what it held before \<^verbatim>\<open>hook\<close>, and leaves the network
  without the attribute \<^verbatim>\<open>_original_forward\<close>; nothing else changes, and calling the
  network gives the same result on the same inputs as before \<^verbatim>\<open>hook\<close>.
\<close>

theorem restore_reverts_hook:
  "(original_forward (host s) = None \<longrightarrow> restore s = Inr s)
   \<and> (\<exists>s'. restore (hook s) = Inr s'
         \<and> forward (host s') = forward (host s)
         \<and> original_forward (host s') = None
         \<and> s' = s\<lparr>host := (host s)\<lparr>original_forward := None\<rparr>\<rparr>
         \<and> (\<forall>env opts native x timesteps ctx.
               call_forward env opts native s' x timesteps ctx
                 = call_forward env opts native s x timesteps ctx))"
  by (simp add: restore_def hook_def get_original_forward_def del_original_forward_def
      call_forward_ignores_saved)

text \<open>
  C10: \<^verbatim>\<open>notify\<close> sets \<^verbatim>\<open>hint_cond\<close> to \<^verbatim>\<open>cond_like\<close> and \<^verbatim>\<open>weight\<close> to \<^verbatim>\<open>weight\<close>; the
  fields \<^verbatim>\<open>only_mid_control\<close>, \<^verbatim>\<open>lowvram\<close>, \<^verbatim>\<open>control\<close> and the held control network
  keep their values, and the host network, with its \<^verbatim>\<open>forward\<close> and its saved
  \<^verbatim>\<open>_original_forward\<close>, is untouched.
\<close>

theorem notify_frame:
  "hint_cond (outer (notify s cond_like wt)) = cond_like
   \<and> weight (outer (notify s cond_like wt)) = wt
   \<and> only_mid_control (outer (notify s cond_like wt)) = only_mid_control (outer s)
   \<and> lowvram (outer (notify s cond_like wt)) = lowvram (outer s)
   \<and> control (outer (notify s cond_like wt)) = control (outer s)
   \<and> control_model (outer (notify s cond_like wt)) = control_model (outer s)
   \<and> host (notify s cond_like wt) = host s
   \<and> notify s cond_like wt = s\<lparr>outer := (outer s)\<lparr>hint_cond := cond_like, weight := wt\<rparr>\<rparr>"
  by (simp add: notify_def)

text \<open>
  C8: for a checkpoint in which no key starts with \<^verbatim>\<open>control_model.\<close>, reconciliation
  raises nothing and the dict handed to the control network is the loaded dict itself,
  whatever the settings and the base model.
\<close>

theorem bare_checkpoint_unchanged:
  "\<not> list_ex (\<lambda>(k, v). startswith k ''control_model.'') state_dict \<Longrightarrow>
   reconcile opts base_model state_dict = Inr state_dict"
  by (simp add: reconcile_def)

text \<open>
  C3: for a bundled checkpoint with a key \<^verbatim>\<open>difference\<close> and a supplied base model, the
  transfer loop runs in difference mode and raises nothing; for every checkpoint key that
  starts with \<^verbatim>\<open>control_model.\<close>, the reconciled value \<^verbatim>\<open>final_state_dict[key]\<close> is the
  stored value plus the base model's parameter under the lookup key when the base model
  has that key, and the stored value itself when it has not. The constructor then hands
  \<open>strip_control_model final_state_dict\<close> to the control network.
\<close>

theorem difference_transfer:
  assumes bundled: "list_ex (\<lambda>(k, v). startswith k ''control_model.'') state_dict"
    and diff: "map_of state_dict ''difference'' \<noteq> None"
  shows "\<exists>final_state_dict counter.
      transfer_control True state_dict unet_state_dict = Inr (final_state_dict, counter)
    \<and> reconcile opts (Some unet_state_dict) state_dict = Inr (strip_control_model final_state_dict)
    \<and> (\<forall>key p. map_of state_dict key = Some p \<and> startswith key ''control_model.'' \<longrightarrow>
          map_of final_state_dict key =
            Some (case map_of unet_state_dict (key_name key) of Some b \<Rightarrow> p + b | None \<Rightarrow> p))"
proof -
  have "\<forall>k \<in> set (map fst state_dict). startswith k ''control_model.'' \<longrightarrow>
          (\<exists>r. p_new True state_dict unet_state_dict k = Inr r)"
  proof (intro ballI impI)
    fix k assume "k \<in> set (map fst state_dict)"
    then have "map_of state_dict k \<noteq> None" unfolding in_keys_iff .
    then obtain p where "map_of state_dict k = Some p" by blast
    then show "\<exists>r. p_new True state_dict unet_state_dict k = Inr r"
      by (simp add: p_new_diff)
  qed
  from transfer_loop_succeeds [OF this]
  obtain final_state_dict counter where
    run: "transfer_control True state_dict unet_state_dict = Inr (final_state_dict, counter)"
    unfolding transfer_control_def by (metis surj_pair)
  have rec: "reconcile opts (Some unet_state_dict) state_dict = Inr (strip_control_model final_state_dict)"
    using bundled diff run by (simp add: reconcile_def)
  have vals: "map_of final_state_dict key =
            Some (case map_of unet_state_dict (key_name key) of Some b \<Rightarrow> p + b | None \<Rightarrow> p)"
    if "map_of state_dict key = Some p" and "startswith key ''control_model.''" for key p
  proof -
    from that(1) have "key \<in> set (map fst state_dict)" unfolding in_keys_iff by simp
    with transfer_loop_lookup [OF run [unfolded transfer_control_def], of key] that(2)
    obtain v n where "p_new True state_dict unet_state_dict key = Inr (v, n)"
      and "map_of final_state_dict key = Some v" by blast
    with p_new_diff [OF that(1), of unet_state_dict] show ?thesis
      by (auto split: option.splits)
  qed
  from run rec vals show ?thesis by blast
qed


lemma p_new_error: "p_new d sd unet k = Inl e \<Longrightarrow> \<exists>k'. e = KeyError k'"
  by (auto simp: p_new_def split: option.splits if_splits)

lemma transfer_loop_error:
  "transfer_loop d sd unet keys acc = Inl e \<Longrightarrow> \<exists>k'. e = KeyError k'"
proof (induction keys arbitrary: acc)
  case Nil
  then show ?case by simp
next
  case (Cons key keys)
  obtain final c where acc: "acc = (final, c)" by (cases acc)
  show ?case
  proof (cases "startswith key ''control_model.''")
    case False
    with Cons show ?thesis by (simp add: acc)
  next
    case True
    show ?thesis
    proof (cases "p_new d sd unet key")
      case (Inl e0)
      with Cons.prems True have "e0 = e" by (simp add: acc)
      with Inl p_new_error show ?thesis by blast
    next
      case (Inr r)
      with Cons.prems True Cons.IH show ?thesis
        by (cases r) (simp add: acc)
    qed
  qed
qed

lemma p_new_offset:
  "map_of sd key = Some p \<Longrightarrow>
   p_new False sd unet key =
     (case map_of unet (key_name key) of
        None \<Rightarrow> Inr (p, 0)
      | Some b \<Rightarrow>
          (case map_of sd (''model.diffusion_model.'' @ key_name key) of
             None \<Rightarrow> Inl (KeyError (''model.diffusion_model.'' @ key_name key))
           | Some r \<Rightarrow> Inr (p + b - r, 1)))"
  by (simp add: p_new_def split: option.split)

text \<open>
  C2 (amended): for a bundled checkpoint without a key \<^verbatim>\<open>difference\<close>, with
  \<^verbatim>\<open>control_net_control_transfer\<close> on, some key starting with \<^verbatim>\<open>model.diffusion_model.\<close>
  and a supplied base model: when every \<^verbatim>\<open>control_model.\<close> key whose lookup key is in
  the base model has its reference recorded in the checkpoint under
  \<^verbatim>\<open>model.diffusion_model.\<close> plus the lookup key, the transfer loop raises nothing and
  for every such key the reconciled value is \<open>p + B_cur - B_ref\<close>; when some such key has
  no recorded reference, the constructor raises \<^verbatim>\<open>KeyError\<close> and there is no reconciled
  value at all.
\<close>

theorem offset_transfer:
  assumes bundled: "list_ex (\<lambda>(k, v). startswith k ''control_model.'') state_dict"
    and nodiff: "map_of state_dict ''difference'' = None"
    and opt: "opts ''control_net_control_transfer'' = Some True"
    and base: "list_ex (\<lambda>(k, v). startswith k ''model.diffusion_model.'') state_dict"
  shows "(refs_recorded state_dict unet_state_dict \<longrightarrow>
      (\<exists>final_state_dict counter.
          transfer_control False state_dict unet_state_dict = Inr (final_state_dict, counter)
        \<and> reconcile opts (Some unet_state_dict) state_dict = Inr (strip_control_model final_state_dict)
        \<and> (\<forall>key p b. map_of state_dict key = Some p \<and> startswith key ''control_model.''
                \<and> map_of unet_state_dict (key_name key) = Some b \<longrightarrow>
              (\<exists>r. map_of state_dict (''model.diffusion_model.'' @ key_name key) = Some r
                 \<and> map_of final_state_dict key = Some (p + b - r)))))
    \<and> (\<not> refs_recorded state_dict unet_state_dict \<longrightarrow>
          (\<exists>k. reconcile opts (Some unet_state_dict) state_dict = Inl (KeyError k)))"
proof (intro conjI impI)
  assume refs: "refs_recorded state_dict unet_state_dict"
  have "\<forall>k \<in> set (map fst state_dict). startswith k ''control_model.'' \<longrightarrow>
          (\<exists>r. p_new False state_dict unet_state_dict k = Inr r)"
  proof (intro ballI impI)
    fix k assume k: "k \<in> set (map fst state_dict)" and pre: "startswith k ''control_model.''"
    from k have "map_of state_dict k \<noteq> None" unfolding in_keys_iff .
    then obtain p where p: "map_of state_dict k = Some p" by blast
    from refs k pre have "map_of unet_state_dict (key_name k) \<noteq> None \<longrightarrow>
        map_of state_dict (''model.diffusion_model.'' @ key_name k) \<noteq> None"
      unfolding refs_recorded_def list_all_iff by blast
    then show "\<exists>r. p_new False state_dict unet_state_dict k = Inr r"
      by (auto simp: p_new_offset [OF p] split: option.splits)
  qed
  from transfer_loop_succeeds [OF this]
  obtain final_state_dict counter where
    run: "transfer_control False state_dict unet_state_dict = Inr (final_state_dict, counter)"
    unfolding transfer_control_def by (metis surj_pair)
  have rec: "reconcile opts (Some unet_state_dict) state_dict = Inr (strip_control_model final_state_dict)"
    using bundled nodiff opt base run by (simp add: reconcile_def)
  have vals: "\<exists>r. map_of state_dict (''model.diffusion_model.'' @ key_name key) = Some r
                 \<and> map_of final_state_dict key = Some (p + b - r)"
    if "map_of state_dict key = Some p" and "startswith key ''control_model.''"
      and "map_of unet_state_dict (key_name key) = Some b" for key p b
  proof -
    from that(1) have "key \<in> set (map fst state_dict)" unfolding in_keys_iff by simp
    with transfer_loop_lookup [OF run [unfolded transfer_control_def], of key] that(2)
    obtain v n where "p_new False state_dict unet_state_dict key = Inr (v, n)"
      and "map_of final_state_dict key = Some v" by blast
    with p_new_offset [OF that(1), of unet_state_dict] that(3) show ?thesis
      by (auto split: option.splits)
  qed
  from run rec vals
  show "\<exists>final_state_dict counter.
          transfer_control False state_dict unet_state_dict = Inr (final_state_dict, counter)
        \<and> reconcile opts (Some unet_state_dict) state_dict = Inr (strip_control_model final_state_dict)
        \<and> (\<forall>key p b. map_of state_dict key = Some p \<and> startswith key ''control_model.''
                \<and> map_of unet_state_dict (key_name key) = Some b \<longrightarrow>
              (\<exists>r. map_of state_dict (''model.diffusion_model.'' @ key_name key) = Some r
                 \<and> map_of final_state_dict key = Some (p + b - r)))"
    by blast
next
  assume "\<not> refs_recorded state_dict unet_state_dict"
  then obtain k where k: "k \<in> set (map fst state_dict)" and pre: "startswith k ''control_model.''"
    and inb: "map_of unet_state_dict (key_name k) \<noteq> None"
    and noref: "map_of state_dict (''model.diffusion_model.'' @ key_name k) = None"
    unfolding refs_recorded_def list_all_iff by blast
  from k have "map_of state_dict k \<noteq> None" unfolding in_keys_iff .
  then obtain p where p: "map_of state_dict k = Some p" by blast
  from inb noref have "\<exists>e. p_new False state_dict unet_state_dict k = Inl e"
    by (auto simp: p_new_offset [OF p] split: option.splits)
  then obtain e where "p_new False state_dict unet_state_dict k = Inl e" ..
  from transfer_loop_fails [OF k pre this]
  obtain e' where f: "transfer_control False state_dict unet_state_dict = Inl e'"
    unfolding transfer_control_def by blast
  from transfer_loop_error [OF f [unfolded transfer_control_def]]
  obtain k' where "e' = KeyError k'" ..
  with f bundled nodiff opt base
  show "\<exists>k. reconcile opts (Some unet_state_dict) state_dict = Inl (KeyError k)"
    by (simp add: reconcile_def)
qed

text \<open>
  C2 (as stated) promises the value \<open>p + B_cur - B_ref\<close> for every \<^verbatim>\<open>control_model.\<close> key
  whose lookup key is in the base model. In the checkpoint below, the key
  \<^verbatim>\<open>control_model.a\<close> has its lookup key \<^verbatim>\<open>a\<close> in the base model and its reference
  recorded (\<open>p = 1\<close>, \<open>B_cur = 10\<close>, \<open>B_ref = 3\<close>), and all the conditions of the claim
  hold; but \<^verbatim>\<open>control_model.b\<close> has no recorded reference, the loop raises
  \<^verbatim>\<open>KeyError\<close> there, and no key gets a reconciled value.
\<close>

theorem offset_transfer_missing_reference:
  "list_ex (\<lambda>(k, v). startswith k ''control_model.'')
     [(''control_model.a'', 1 :: int), (''control_model.b'', 2), (''model.diffusion_model.a'', 3)]
   \<and> map_of [(''control_model.a'', 1 :: int), (''control_model.b'', 2), (''model.diffusion_model.a'', 3)]
       ''difference'' = None
   \<and> list_ex (\<lambda>(k, v). startswith k ''model.diffusion_model.'')
       [(''control_model.a'', 1 :: int), (''control_model.b'', 2), (''model.diffusion_model.a'', 3)]
   \<and> startswith ''control_model.a'' ''control_model.''
   \<and> map_of [(''a'', 10 :: int), (''b'', 20)] (key_name ''control_model.a'') = Some 10
   \<and> map_of [(''control_model.a'', 1 :: int), (''control_model.b'', 2), (''model.diffusion_model.a'', 3)]
       (''model.diffusion_model.'' @ key_name ''control_model.a'') = Some 3
   \<and> reconcile [''control_net_control_transfer'' \<mapsto> True] (Some [(''a'', 10), (''b'', 20)])
       [(''control_model.a'', 1 :: int), (''control_model.b'', 2), (''model.diffusion_model.a'', 3)]
       = Inl (KeyError ''model.diffusion_model.b'')"
  by (simp add: reconcile_def transfer_control_def p_new_def key_name_def get_node_name_def
      startswith_def)


theorem restore_reverts_hook_witness:
  "restore (tiny_session\<lparr>host := (host tiny_session)
              \<lparr>forward := ClassForward (), original_forward := None\<rparr>\<rparr>)
     = Inr (tiny_session\<lparr>host := (host tiny_session)
              \<lparr>forward := ClassForward (), original_forward := None\<rparr>\<rparr>)
   \<and> restore (hook (tiny_session\<lparr>host := (host tiny_session)
              \<lparr>forward := ClassForward (), original_forward := None\<rparr>\<rparr>))
     = Inr (tiny_session\<lparr>host := (host tiny_session)
              \<lparr>forward := ClassForward (), original_forward := None\<rparr>\<rparr>)
   \<and> restore (hook tiny_session)
     = Inr (tiny_session\<lparr>host := (host tiny_session)\<lparr>original_forward := None\<rparr>\<rparr>)"
  using restore_reverts_hook [of "tiny_session\<lparr>host := (host tiny_session)
              \<lparr>forward := ClassForward (), original_forward := None\<rparr>\<rparr>"]
    restore_reverts_hook [of tiny_session]
  by simp

theorem bare_checkpoint_unchanged_witness:
  "\<not> list_ex (\<lambda>(k, v). startswith k ''control_model.'')
        [(''input_blocks.0.0.weight'', 4 :: int), (''zero_convs.0.0.bias'', 0)]
   \<and> reconcile [''control_net_control_transfer'' \<mapsto> True] (Some [(''input_blocks.0.0.weight'', 9)])
        [(''input_blocks.0.0.weight'', 4 :: int), (''zero_convs.0.0.bias'', 0)]
      = Inr [(''input_blocks.0.0.weight'', 4), (''zero_convs.0.0.bias'', 0)]"
proof -
  have h: "\<not> list_ex (\<lambda>(k, v). startswith k ''control_model.'')
        [(''input_blocks.0.0.weight'', 4 :: int), (''zero_convs.0.0.bias'', 0)]"
    by (simp add: startswith_def)
  from h bare_checkpoint_unchanged [OF h] show ?thesis by simp
qed

theorem difference_transfer_witness:
  "list_ex (\<lambda>(k, v). startswith k ''control_model.'')
     [(''control_model.a'', 1 :: int), (''control_model.c'', 2), (''difference'', 3)]
   \<and> map_of [(''control_model.a'', 1 :: int), (''control_model.c'', 2), (''difference'', 3)]
        ''difference'' = Some 3
   \<and> transfer_control True
        [(''control_model.a'', 1 :: int), (''control_model.c'', 2), (''difference'', 3)]
        [(''a'', 10), (''b'', 20)]
      = Inr ([(''control_model.a'', 11), (''control_model.c'', 2)], 1)
   \<and> reconcile Map.empty (Some [(''a'', 10), (''b'', 20)])
        [(''control_model.a'', 1 :: int), (''control_model.c'', 2), (''difference'', 3)]
      = Inr [(''a'', 11), (''c'', 2)]"
proof -
  let ?sd = "[(''control_model.a'', 1 :: int), (''control_model.c'', 2), (''difference'', 3)]"
  have h1: "list_ex (\<lambda>(k, v). startswith k ''control_model.'') ?sd"
    by (simp add: startswith_def)
  have h2: "map_of ?sd ''difference'' \<noteq> None" by simp
  have run: "transfer_control True ?sd [(''a'', 10), (''b'', 20)]
      = Inr ([(''control_model.a'', 11), (''control_model.c'', 2)], 1)"
    by (simp add: transfer_control_def p_new_def key_name_def get_node_name_def startswith_def)
  from difference_transfer [OF h1 h2, of "[(''a'', 10), (''b'', 20)]" Map.empty] run
  have "reconcile Map.empty (Some [(''a'', 10), (''b'', 20)]) ?sd
      = Inr (strip_control_model [(''control_model.a'', 11), (''control_model.c'', 2)])"
    by auto
  then have "reconcile Map.empty (Some [(''a'', 10), (''b'', 20)]) ?sd = Inr [(''a'', 11), (''c'', 2)]"
    by (simp add: strip_control_model_def startswith_def)
  with h1 run show ?thesis by simp
qed

theorem offset_transfer_witness:
  "list_ex (\<lambda>(k, v). startswith k ''control_model.'')
     [(''control_model.a'', 1 :: int), (''control_model.b'', 2),
      (''model.diffusion_model.a'', 3), (''model.diffusion_model.b'', 5)]
   \<and> refs_recorded
       [(''control_model.a'', 1 :: int), (''control_model.b'', 2),
        (''model.diffusion_model.a'', 3), (''model.diffusion_model.b'', 5)]
       [(''a'', 10 :: int), (''b'', 20)]
   \<and> transfer_control False
        [(''control_model.a'', 1 :: int), (''control_model.b'', 2),
         (''model.diffusion_model.a'', 3), (''model.diffusion_model.b'', 5)]
        [(''a'', 10), (''b'', 20)]
      = Inr ([(''control_model.a'', 8), (''control_model.b'', 17)], 2)
   \<and> reconcile [''control_net_control_transfer'' \<mapsto> True] (Some [(''a'', 10), (''b'', 20)])
        [(''control_model.a'', 1 :: int), (''control_model.b'', 2),
         (''model.diffusion_model.a'', 3), (''model.diffusion_model.b'', 5)]
      = Inr [(''a'', 8), (''b'', 17)]"
proof -
  let ?sd = "[(''control_model.a'', 1 :: int), (''control_model.b'', 2),
      (''model.diffusion_model.a'', 3), (''model.diffusion_model.b'', 5)]"
  let ?unet = "[(''a'', 10 :: int), (''b'', 20)]"
  have h1: "list_ex (\<lambda>(k, v). startswith k ''control_model.'') ?sd"
    by (simp add: startswith_def)
  have h2: "map_of ?sd ''difference'' = None" by simp
  have h3: "[''control_net_control_transfer'' \<mapsto> True] ''control_net_control_transfer'' = Some True"
    by simp
  have h4: "list_ex (\<lambda>(k, v). startswith k ''model.diffusion_model.'') ?sd"
    by (simp add: startswith_def)
  have h5: "refs_recorded ?sd ?unet"
    by (simp add: refs_recorded_def key_name_def get_node_name_def startswith_def)
  have run: "transfer_control False ?sd ?unet
      = Inr ([(''control_model.a'', 8), (''control_model.b'', 17)], 2)"
    by (simp add: transfer_control_def p_new_def key_name_def get_node_name_def startswith_def)
  from offset_transfer [where state_dict = ?sd and unet_state_dict = ?unet
      and opts = "[''control_net_control_transfer'' \<mapsto> True]", OF h1 h2 h3 h4] h5 run
  have "reconcile [''control_net_control_transfer'' \<mapsto> True] (Some ?unet) ?sd
      = Inr (strip_control_model [(''control_model.a'', 8), (''control_model.b'', 17)])"
    by auto
  then have "reconcile [''control_net_control_transfer'' \<mapsto> True] (Some ?unet) ?sd
      = Inr [(''a'', 8), (''b'', 17)]"
    by (simp add: strip_control_model_def startswith_def)
  with h1 h5 run show ?thesis by simp
qed

section \<open>Properties of scripts/cldm.py: the control network and the hooked forward\<close>

lemma bind_err_Inr_iff:
  "bind_err r f = Inr y \<longleftrightarrow> (\<exists>v. r = Inr v \<and> f v = Inr y)"
  by (cases r) (simp_all add: bind_err_def)

lemma bind_err_simps:
  "bind_err (Inr v) f = f v" "bind_err (Inl e) f = Inl e"
  by (simp_all add: bind_err_def)

text \<open>
  C5: in a call of the hooked forward in which the last dimension of the latent \<open>x\<close>
  and of \<^verbatim>\<open>hint_cond\<close> can be read: when the absolute difference between the last
  dimension of \<open>x\<close> and the last dimension of \<^verbatim>\<open>hint_cond\<close> integer-divided by 8 exceeds
  8, \<^verbatim>\<open>only_mid_control\<close> for the call is the setting \<^verbatim>\<open>control_net_only_midctrl_hires\<close>
  (true when the setting is absent), whatever the wrapper's flag, and the rest of the
  call runs with that value; when the difference is at most 8, it is the wrapper's flag.
\<close>

theorem hires_only_mid_control:
  assumes "hint_cond (outer s) = Some hint" and "t_shape env x \<noteq> []" and "t_shape env hint \<noteq> []"
  shows "(\<bar>int (last (t_shape env x)) - int (last (t_shape env hint)) div 8\<bar> > 8 \<longrightarrow>
            call_only_mid_control env opts (outer s) x
              = Inr (case opts ''control_net_only_midctrl_hires'' of None \<Rightarrow> True | Some b \<Rightarrow> b)
          \<and> hook_forward_state env opts s x timesteps context
              = hooked_decode env
                  (case opts ''control_net_only_midctrl_hires'' of None \<Rightarrow> True | Some b \<Rightarrow> b)
                  s x timesteps context)
       \<and> (\<bar>int (last (t_shape env x)) - int (last (t_shape env hint)) div 8\<bar> \<le> 8 \<longrightarrow>
            call_only_mid_control env opts (outer s) x = Inr (only_mid_control (outer s))
          \<and> hook_forward_state env opts s x timesteps context
              = hooked_decode env (only_mid_control (outer s)) s x timesteps context)"
  using assms
  by (simp add: hook_forward_state_def call_only_mid_control_def last_dim_def bind_err_simps)

lemma zero_block_make_zero_conv: "zero_block (make_zero_conv ini d c)"
  by (simp add: make_zero_conv_def conv_nd_def Let_def zero_params_def list_all_iff)

lemma zero_params_conv_at:
  fixes c :: "('a :: semiring_0) conv"
  assumes "zero_params c"
  shows "list_all (\<lambda>v. v = 0) (conv_at c patch)"
proof -
  have row0: "sum_list (map (\<lambda>(w, v). w * v) (zip row patch)) = 0"
    if "list_all (\<lambda>w. w = 0) row" for row :: "'a list"
    using that
  proof (induction row arbitrary: patch)
    case Nil
    then show ?case by simp
  next
    case (Cons w row)
    then show ?case by (cases patch) simp_all
  qed
  have "b + sum_list (map (\<lambda>(w, v). w * v) (zip row patch)) = 0"
    if "(row, b) \<in> set (zip (conv_weight c) (conv_bias c))" for row b
  proof -
    from that have "row \<in> set (conv_weight c)" and "b \<in> set (conv_bias c)"
      by (auto dest: set_zip_leftD set_zip_rightD)
    with assms have "list_all (\<lambda>w. w = 0) row" and "b = 0"
      by (auto simp: zero_params_def list_all_iff)
    with row0 show ?thesis by simp
  qed
  then show ?thesis
    by (auto simp: conv_at_def list_all_iff)
qed

lemma zero_params_conv_forward:
  fixes c :: "('a :: semiring_0) conv"
  assumes "zero_params c"
  shows "list_all (list_all (\<lambda>v. v = 0)) (conv_forward c patches)"
  using zero_params_conv_at [OF assms]
  by (simp add: conv_forward_def list_all_iff)


lemma res_step_result:
  assumes "res_step ini cfg level mult nr b = Inr b'"
  shows "\<exists>layers' n'. b' = b\<lparr>net := (net b)
                        \<lparr>input_blocks := input_blocks (net b) @ [layers'],
                         zero_convs := zero_convs (net b)
                            @ [make_zero_conv ini (dims (net b)) (mult * cfg_model_channels cfg)],
                         feature_size := feature_size (net b) + mult * cfg_model_channels cfg\<rparr>,
                      input_block_chans := input_block_chans b @ [mult * cfg_model_channels cfg],
                      ch := mult * cfg_model_channels cfg,
                      num_heads := n'\<rparr>"
  using assms unfolding res_step_def Let_def bind_err_Inr_iff
  by (auto split: prod.splits)

lemma res_step_paired:
  assumes "res_step ini cfg level mult nr b = Inr b'" and "paired (net b)"
  shows "paired (net b') \<and> input_hint_block (net b') = input_hint_block (net b)"
proof -
  from res_step_result [OF assms(1)] obtain layers' n' where
    "b' = b\<lparr>net := (net b)
                        \<lparr>input_blocks := input_blocks (net b) @ [layers'],
                         zero_convs := zero_convs (net b)
                            @ [make_zero_conv ini (dims (net b)) (mult * cfg_model_channels cfg)],
                         feature_size := feature_size (net b) + mult * cfg_model_channels cfg\<rparr>,
                      input_block_chans := input_block_chans b @ [mult * cfg_model_channels cfg],
                      ch := mult * cfg_model_channels cfg,
                      num_heads := n'\<rparr>" by blast
  with assms(2) show ?thesis
    by (simp add: paired_def zero_block_make_zero_conv)
qed

lemma res_loop_paired:
  "res_loop ini cfg level mult nrs b = Inr b' \<Longrightarrow> paired (net b) \<Longrightarrow>
   paired (net b') \<and> input_hint_block (net b') = input_hint_block (net b)"
proof (induction nrs arbitrary: b)
  case Nil
  then show ?case by simp
next
  case (Cons nr nrs)
  from Cons.prems(1) obtain b1 where s1: "res_step ini cfg level mult nr b = Inr b1"
    and rest: "res_loop ini cfg level mult nrs b1 = Inr b'"
    by (auto split: sum.splits)
  from res_step_paired [OF s1 Cons.prems(2)] Cons.IH [OF rest] show ?case by simp
qed

lemma down_step_paired:
  "paired (net b) \<Longrightarrow>
   paired (net (down_step ini cfg b)) \<and> input_hint_block (net (down_step ini cfg b)) = input_hint_block (net b)"
  by (simp add: down_step_def Let_def paired_def zero_block_make_zero_conv)

lemma level_loop_paired:
  "level_loop ini cfg lms b = Inr b' \<Longrightarrow> paired (net b) \<Longrightarrow>
   paired (net b') \<and> input_hint_block (net b') = input_hint_block (net b)"
proof (induction lms arbitrary: b)
  case Nil
  then show ?case by simp
next
  case (Cons lm lms)
  obtain level mult where lm: "lm = (level, mult)" by (cases lm)
  from Cons.prems(1) obtain n b1 where
    r: "res_loop ini cfg level mult (py_range n) b = Inr b1"
    and rest: "level_loop ini cfg lms
                 (if int level \<noteq> int (length (cfg_channel_mult cfg)) - 1
                  then down_step ini cfg b1 else b1) = Inr b'"
    unfolding lm by (auto split: sum.splits)
  from res_loop_paired [OF r Cons.prems(2)]
  have p1: "paired (net b1)" and h1: "input_hint_block (net b1) = input_hint_block (net b)" by simp_all
  let ?b2 = "if int level \<noteq> int (length (cfg_channel_mult cfg)) - 1 then down_step ini cfg b1 else b1"
  from p1 h1 down_step_paired [OF p1, of ini cfg]
  have p2: "paired (net ?b2)" and h2: "input_hint_block (net ?b2) = input_hint_block (net b)"
    by (simp_all split: if_splits)
  from Cons.IH [OF rest p2] h2 show ?case by simp
qed

lemma ControlNet_init_result:
  assumes "ControlNet_init ini cfg = Inr self"
  shows "paired self \<and> zero_block (middle_block_out self)
       \<and> input_hint_block self = hint_block ini cfg"
proof -
  from assms obtain nrb b mb where
    loop: "level_loop ini cfg (enumerate_list (cfg_channel_mult cfg))
            \<lparr>net = \<lparr>dims = cfg_dims cfg, model_channels = cfg_model_channels cfg,
                      dtype = (if cfg_use_fp16 cfg then Float16 else Float32),
                      num_res_blocks = nrb,
                      time_embed = [Linear (cfg_model_channels cfg) (cfg_model_channels cfg * 4), SiLU,
                                    Linear (cfg_model_channels cfg * 4) (cfg_model_channels cfg * 4)],
                      input_blocks = [[conv_nd ini (cfg_dims cfg) (cfg_in_channels cfg) (cfg_model_channels cfg) 3 1 1]],
                      zero_convs = [make_zero_conv ini (cfg_dims cfg) (cfg_model_channels cfg)],
                      input_hint_block = hint_block ini cfg,
                      middle_block = [], middle_block_out = [],
                      feature_size = cfg_model_channels cfg\<rparr>,
               input_block_chans = [cfg_model_channels cfg], ch = cfg_model_channels cfg, ds = 1,
               num_heads = cfg_num_heads cfg\<rparr> = Inr b"
    and self: "self = (net b)\<lparr>middle_block := mb,
                middle_block_out := make_zero_conv ini (dims (net b)) (ch b),
                feature_size := feature_size (net b) + ch b\<rparr>"
    unfolding ControlNet_init_def Let_def bind_err_Inr_iff
    by (auto split: prod.splits)
  from level_loop_paired [OF loop]
  have "paired (net b)" and "input_hint_block (net b) = hint_block ini cfg"
    by (simp_all add: paired_def zero_block_make_zero_conv)
  then show ?thesis
    by (simp add: self paired_def zero_block_make_zero_conv)
qed

lemma hint_block_last:
  "\<exists>c. last (hint_block ini cfg) = Conv c \<and> zero_params c"
  by (simp add: hint_block_def Let_def conv_nd_def zero_params_def list_all_iff)

lemma zero_block_conv: "zero_block blk \<Longrightarrow> \<exists>c. blk = [Conv c] \<and> zero_params c"
  by (induction blk rule: zero_block.induct) simp_all

lemma tiny_init: "ControlNet_init (\<lambda>k. 1) tiny_config = Inr tiny_net"
  by (simp add: ControlNet_init_def tiny_config_def tiny_net_def bind_err_def assert_that_def
      enumerate_list_def item_def py_range_def res_step_def head_dims_def floordiv_def
      attention_layer_def Let_def)



text \<open>
  C9: in every control network the constructor returns, there are as many zero
  convolutions as encoder blocks; each of them and the middle-block one is a single
  convolution whose weights and bias are all zero, and so is the last layer of the
  hint-processing block; each of these convolutions gives an all-zero output on every
  input. (\<^verbatim>\<open>zero_module\<close>, \<^verbatim>\<open>conv_nd\<close> and the convolution itself are modelled from
  the spec; values are taken in a semiring, not in floating point.)
\<close>

theorem zero_convs_zero:
  fixes self :: "('a :: semiring_0) controlnet"
  assumes "ControlNet_init ini cfg = Inr self"
  shows "length (zero_convs self) = length (input_blocks self)
    \<and> (\<forall>blk \<in> set (zero_convs self @ [middle_block_out self]).
          \<exists>c. blk = [Conv c] \<and> zero_params c
             \<and> (\<forall>patches. list_all (list_all (\<lambda>v. v = 0)) (conv_forward c patches)))
    \<and> (\<exists>c. last (input_hint_block self) = Conv c \<and> zero_params c
             \<and> (\<forall>patches. list_all (list_all (\<lambda>v. v = 0)) (conv_forward c patches)))"
proof -
  from ControlNet_init_result [OF assms]
  have p: "paired self" and m: "zero_block (middle_block_out self)"
    and h: "input_hint_block self = hint_block ini cfg" by simp_all
  from p have len: "length (zero_convs self) = length (input_blocks self)"
    by (simp add: paired_def)
  have blocks: "\<exists>c. blk = [Conv c] \<and> zero_params c
             \<and> (\<forall>patches. list_all (list_all (\<lambda>v. v = 0)) (conv_forward c patches))"
    if "blk \<in> set (zero_convs self @ [middle_block_out self])" for blk
  proof -
    from that p m have "zero_block blk" by (auto simp: paired_def list_all_iff)
    from zero_block_conv [OF this] obtain c where "blk = [Conv c]" and "zero_params c" by blast
    with zero_params_conv_forward [of c] show ?thesis by blast
  qed
  from hint_block_last [of ini cfg] obtain c where
    "last (input_hint_block self) = Conv c" and "zero_params c" unfolding h by blast
  with zero_params_conv_forward [of c]
  have "\<exists>c. last (input_hint_block self) = Conv c \<and> zero_params c
             \<and> (\<forall>patches. list_all (list_all (\<lambda>v. v = 0)) (conv_forward c patches))" by blast
  with len blocks show ?thesis by blast
qed

theorem zero_convs_zero_witness:
  "ControlNet_init (\<lambda>k. 1) tiny_config = Inr tiny_net
   \<and> length (zero_convs tiny_net) = 2 \<and> length (input_blocks tiny_net) = 2
   \<and> middle_block_out tiny_net
       = [Conv \<lparr>conv_in = 1, conv_out = 1, conv_kernel = 1, conv_padding = 0, conv_stride = 1,
                conv_weight = [[0]], conv_bias = [0]\<rparr>]
   \<and> conv_forward \<lparr>conv_in = 1, conv_out = 1, conv_kernel = 1, conv_padding = 0, conv_stride = 1,
                conv_weight = [[0 :: int]], conv_bias = [0]\<rparr> [[5], [- 3]] = [[0], [0]]"
proof -
  have i: "ControlNet_init (\<lambda>k. 1) tiny_config = Inr tiny_net" by (rule tiny_init)
  from zero_convs_zero [OF i] have "length (zero_convs tiny_net) = length (input_blocks tiny_net)"
    by blast
  moreover have "length (input_blocks tiny_net) = 2" by (simp add: tiny_net_def)
  moreover have "middle_block_out tiny_net
       = [Conv \<lparr>conv_in = 1, conv_out = 1, conv_kernel = 1, conv_padding = 0, conv_stride = 1,
                conv_weight = [[0]], conv_bias = [0]\<rparr>]"
    by (simp add: tiny_net_def make_zero_conv_def conv_nd_def)
  moreover have "conv_forward \<lparr>conv_in = 1, conv_out = 1, conv_kernel = 1, conv_padding = 0, conv_stride = 1,
                conv_weight = [[0 :: int]], conv_bias = [0]\<rparr> [[5], [- 3]] = [[0], [0]]"
    by (simp add: conv_forward_def conv_at_def)
  ultimately show ?thesis using i by simp
qed

theorem hires_only_mid_control_witness:
  "call_only_mid_control shape_torch Map.empty (outer tiny_session) [1, 4, 8, 32] = Inr True
   \<and> hook_forward_state shape_torch Map.empty tiny_session [1, 4, 8, 32] (Some []) []
       = hooked_decode shape_torch True tiny_session [1, 4, 8, 32] (Some []) []
   \<and> call_only_mid_control shape_torch [''control_net_only_midctrl_hires'' \<mapsto> False]
        (outer tiny_session) [1, 4, 8, 32] = Inr False
   \<and> call_only_mid_control shape_torch Map.empty (outer tiny_session) [1, 4, 8, 8]
       = Inr (only_mid_control (outer tiny_session))
   \<and> hook_forward_state shape_torch Map.empty tiny_session [1, 4, 8, 8] (Some []) []
       = hooked_decode shape_torch (only_mid_control (outer tiny_session)) tiny_session
           [1, 4, 8, 8] (Some []) []"
proof -
  have sh: "t_shape shape_torch t = t" for t :: "nat list"
    by (simp add: shape_torch_def)
  have h: "hint_cond (outer tiny_session) = Some [3, 64, 64]" by (simp add: tiny_session_def)
  have x1: "t_shape shape_torch [1, 4, 8, 32] \<noteq> []" and x2: "t_shape shape_torch [1, 4, 8, 8] \<noteq> []"
    and x3: "t_shape shape_torch [3, 64, 64] \<noteq> []"
    by (simp_all add: sh)
  from hires_only_mid_control [OF h x1 x3, of Map.empty "Some []" "[]"]
  have c1: "call_only_mid_control shape_torch Map.empty (outer tiny_session) [1, 4, 8, 32] = Inr True
   \<and> hook_forward_state shape_torch Map.empty tiny_session [1, 4, 8, 32] (Some []) []
       = hooked_decode shape_torch True tiny_session [1, 4, 8, 32] (Some []) []"
    by (simp add: sh)
  from hires_only_mid_control [OF h x1 x3, of "[''control_net_only_midctrl_hires'' \<mapsto> False]" "Some []" "[]"]
  have c2: "call_only_mid_control shape_torch [''control_net_only_midctrl_hires'' \<mapsto> False]
        (outer tiny_session) [1, 4, 8, 32] = Inr False"
    by (simp add: sh)
  from hires_only_mid_control [OF h x2 x3, of Map.empty "Some []" "[]"]
  have c3: "call_only_mid_control shape_torch Map.empty (outer tiny_session) [1, 4, 8, 8]
       = Inr (only_mid_control (outer tiny_session))
   \<and> hook_forward_state shape_torch Map.empty tiny_session [1, 4, 8, 8] (Some []) []
       = hooked_decode shape_torch (only_mid_control (outer tiny_session)) tiny_session
           [1, 4, 8, 8] (Some []) []"
    by (simp add: sh)
  from c1 c2 c3 show ?thesis by blast
qed

section \<open>Properties of scripts/cldm.py: the control stack\<close>

lemma encoder_loop_outs:
  "encoder_loop env emb ctx zs (g, h, outs) = (g', h', outs') \<Longrightarrow>
   \<exists>hs. length hs = length zs
      \<and> outs' = outs @ map (\<lambda>(zc, hh). t_seq env zc hh emb ctx) (zip (map snd zs) hs)"
proof (induction zs arbitrary: g h outs)
  case Nil
  then show ?case by simp
next
  case (Cons z zs)
  obtain m zc where z: "z = (m, zc)" by (cases z)
  define h1 where "h1 = (case g of Some gh \<Rightarrow> t_add env (t_seq env m h emb ctx) gh
                          | None \<Rightarrow> t_seq env m h emb ctx)"
  from Cons.prems have "encoder_loop env emb ctx zs (None, h1, outs @ [t_seq env zc h1 emb ctx])
      = (g', h', outs')"
    by (simp add: z h1_def Let_def)
  from Cons.IH [OF this] obtain hs where "length hs = length zs"
    and "outs' = (outs @ [t_seq env zc h1 emb ctx])
           @ map (\<lambda>(zc, hh). t_seq env zc hh emb ctx) (zip (map snd zs) hs)" by blast
  then have "length (h1 # hs) = length (z # zs)
      \<and> outs' = outs @ map (\<lambda>(zc, hh). t_seq env zc hh emb ctx) (zip (map snd (z # zs)) (h1 # hs))"
    by (simp add: z)
  then show ?case by blast
qed

lemma ControlNet_forward_outs:
  assumes len: "length (zero_convs self) = length (input_blocks self)"
    and run: "ControlNet_forward env self x hint timesteps ctx = Inr outs"
  shows "\<exists>emb hs h_mid. length hs = length (input_blocks self)
      \<and> outs = map (\<lambda>(zc, hh). t_seq env zc hh emb ctx) (zip (zero_convs self) hs)
               @ [t_seq env (middle_block_out self) h_mid emb ctx]"
proof -
  from run obtain t_emb where "t_timestep_embedding env timesteps (model_channels self) = Inr t_emb"
    and r1: "(let emb = t_seq1 env (time_embed self) t_emb;
         guided_hint = t_seq env (input_hint_block self) hint emb ctx
     in (case last_two (t_shape env x) of
           [h1, w1] \<Rightarrow>
             bind_err (ControlNet_align env guided_hint h1 w1) (\<lambda>guided_hint'.
             let h = t_type env x (dtype self);
                 (g, h', outs) =
                   encoder_loop env emb ctx (zip (input_blocks self) (zero_convs self))
                     (Some guided_hint', h, []);
                 h'' = t_seq env (middle_block self) h' emb ctx
             in Inr (outs @ [t_seq env (middle_block_out self) h'' emb ctx]))
         | _ \<Rightarrow> Inl ValueError)) = Inr outs"
    unfolding ControlNet_forward_def bind_err_Inr_iff by blast
  define emb where "emb = t_seq1 env (time_embed self) t_emb"
  define F where "F = (\<lambda>gh. case encoder_loop env emb ctx (zip (input_blocks self) (zero_convs self))
                     (Some gh, t_type env x (dtype self), []) of
               (g, h', outs') \<Rightarrow>
                 (Inr (outs' @ [t_seq env (middle_block_out self)
                        (t_seq env (middle_block self) h' emb ctx) emb ctx]) :: py_error + _ list))"
  from r1 have "\<exists>h1 w1. bind_err (ControlNet_align env
          (t_seq env (input_hint_block self) hint emb ctx) h1 w1) F = Inr outs"
    unfolding F_def Let_def emb_def [symmetric]
    by (auto split: list.splits)
  then obtain gh where fg: "F gh = Inr outs"
    unfolding bind_err_Inr_iff by blast
  obtain g' h' outs' where enc:
    "encoder_loop env emb ctx (zip (input_blocks self) (zero_convs self))
       (Some gh, t_type env x (dtype self), []) = (g', h', outs')"
    by (metis prod_cases3)
  with fg have outs: "outs = outs' @ [t_seq env (middle_block_out self) (t_seq env (middle_block self) h' emb ctx) emb ctx]"
    by (simp add: F_def)
  from encoder_loop_outs [OF enc] len obtain hs where "length hs = length (input_blocks self)"
    and "outs' = map (\<lambda>(zc, hh). t_seq env zc hh emb ctx) (zip (zero_convs self) hs)"
    by auto
  with outs show ?thesis by blast
qed

lemma host_encoder_length:
  "host_encoder env emb ctx mods (h, hs) = (h', hs') \<Longrightarrow> length hs' = length hs + length mods"
  by (induction mods arbitrary: h hs) (auto simp: Let_def)

lemma pop_Inr_iff: "pop xs = Inr (v, ys) \<longleftrightarrow> xs \<noteq> [] \<and> v = last xs \<and> ys = butlast xs"
  by (auto simp: pop_def)

lemma decoder_loop_omc:
  "decoder_loop env True wt emb ctx mods (h, hs, ctl) = Inr (h', hs', ctl') \<Longrightarrow>
   ctl' = ctl \<and> length mods \<le> length hs \<and> hs' = take (length hs - length mods) hs"
proof (induction mods arbitrary: h hs)
  case Nil
  then show ?case by simp
next
  case (Cons m mods)
  from Cons.prems have ne: "hs \<noteq> []"
    and rest: "decoder_loop env True wt emb ctx mods
        (t_call env m (t_cat env h (last hs)) emb ctx, butlast hs, ctl) = Inr (h', hs', ctl')"
    by (auto simp: pop_def split: if_splits)
  from Cons.IH [OF rest] have c: "ctl' = ctl" and l: "length mods \<le> length (butlast hs)"
    and t: "hs' = take (length (butlast hs) - length mods) (butlast hs)" by simp_all
  from ne l have l': "length (m # mods) \<le> length hs" by (cases hs rule: rev_cases) simp_all
  from ne t have "hs' = take (length hs - length (m # mods)) hs"
    by (cases hs rule: rev_cases) simp_all
  with c l' show ?case by simp
qed

lemma decoder_loop_pops:
  "decoder_loop env False wt emb ctx mods (h, hs, ctl) = Inr (h', hs', ctl') \<Longrightarrow>
   length mods \<le> length ctl \<and> ctl' = take (length ctl - length mods) ctl
   \<and> length mods \<le> length hs \<and> hs' = take (length hs - length mods) hs"
proof (induction mods arbitrary: h hs ctl)
  case Nil
  then show ?case by simp
next
  case (Cons m mods)
  from Cons.prems have ne: "hs \<noteq> []" and nec: "ctl \<noteq> []"
    by (auto simp: pop_def split: if_splits sum.splits)
  with Cons.prems obtain h1 where
    rest: "decoder_loop env False wt emb ctx mods (h1, butlast hs, butlast ctl) = Inr (h', hs', ctl')"
    by (auto simp: pop_def split: sum.splits)
  from Cons.IH [OF rest] have l: "length mods \<le> length (butlast ctl)"
    and t: "ctl' = take (length (butlast ctl) - length mods) (butlast ctl)"
    and lh: "length mods \<le> length (butlast hs)"
    and th: "hs' = take (length (butlast hs) - length mods) (butlast hs)" by simp_all
  from nec l t have "length (m # mods) \<le> length ctl \<and> ctl' = take (length ctl - length (m # mods)) ctl"
    by (cases ctl rule: rev_cases) simp_all
  moreover from ne lh th
  have "length (m # mods) \<le> length hs \<and> hs' = take (length hs - length (m # mods)) hs"
    by (cases hs rule: rev_cases) simp_all
  ultimately show ?case by simp
qed

lemma decoder_loop_append:
  "decoder_loop env False wt emb ctx (xs @ ys) st =
     (case decoder_loop env False wt emb ctx xs st of
        Inl e \<Rightarrow> Inl e
      | Inr st' \<Rightarrow> decoder_loop env False wt emb ctx ys st')"
proof (induction xs arbitrary: st)
  case Nil
  then show ?case by simp
next
  case (Cons m xs)
  obtain h hs ctl where st: "st = (h, hs, ctl)" by (cases st)
  show ?case
    unfolding st
    by (simp add: Cons.IH split: sum.split prod.split)
qed

lemma decoder_loop_prefix:
  assumes "decoder_loop env False wt emb ctx mods (h, hs, ctl) = Inr fin" and "j \<le> length mods"
  shows "\<exists>hj hsj. decoder_loop env False wt emb ctx (take j mods) (h, hs, ctl)
           = Inr (hj, hsj, take (length ctl - j) ctl)"
proof -
  have "decoder_loop env False wt emb ctx (take j mods @ drop j mods) (h, hs, ctl) = Inr fin"
    using assms(1) by simp
  then obtain st' where p: "decoder_loop env False wt emb ctx (take j mods) (h, hs, ctl) = Inr st'"
    unfolding decoder_loop_append by (auto split: sum.splits)
  obtain hj hsj ctlj where st': "st' = (hj, hsj, ctlj)" by (cases st')
  from decoder_loop_pops [OF p [unfolded st']] assms(2)
  have "ctlj = take (length ctl - j) ctl" by simp
  with p st' show ?thesis by blast
qed


lemma hooked_decode_Inr:
  assumes "hooked_decode env omc s x timesteps ctx = Inr fin"
  shows "\<exists>hint outs emb h_host hs0. hint_cond (outer s) = Some hint
     \<and> ControlNet_forward env (control_model (outer s)) x hint timesteps ctx = Inr outs
     \<and> outs \<noteq> []
     \<and> length hs0 = length (unet_input_blocks (host s))
     \<and> decoder_loop env omc (weight (outer s)) emb ctx (unet_output_blocks (host s))
          (t_add env (t_call env (unet_middle_block (host s)) h_host emb ctx) (last outs),
           hs0, butlast outs) = Inr fin"
proof -
  from assms obtain hint where hint: "hint_cond (outer s) = Some hint"
    by (cases "hint_cond (outer s)") (simp_all add: hooked_decode_def)
  from assms obtain outs t_emb where
    cf: "ControlNet_forward env (control_model (outer s)) x hint timesteps ctx = Inr outs"
    and te: "t_timestep_embedding env timesteps (unet_model_channels (host s)) = Inr t_emb"
    and rest: "(let emb = t_call1 env (unet_time_embed (host s)) t_emb;
              h0 = t_type env x (unet_dtype (host s));
              (h1, hs) = host_encoder env emb ctx (unet_input_blocks (host s)) (h0, []);
              h2 = t_call env (unet_middle_block (host s)) h1 emb ctx
          in bind_err (pop outs) (\<lambda>(mid, ctl').
             decoder_loop env omc (weight (outer s)) emb ctx (unet_output_blocks (host s))
               (t_add env h2 mid, hs, ctl'))) = Inr fin"
    by (auto simp: hooked_decode_def hint bind_err_Inr_iff)
  define emb where "emb = t_call1 env (unet_time_embed (host s)) t_emb"
  obtain h1 hs0 where he: "host_encoder env emb ctx (unet_input_blocks (host s))
      (t_type env x (unet_dtype (host s)), []) = (h1, hs0)"
    by (cases "host_encoder env emb ctx (unet_input_blocks (host s))
      (t_type env x (unet_dtype (host s)), [])")
  from host_encoder_length [OF he] have len: "length hs0 = length (unet_input_blocks (host s))"
    by simp
  from rest he obtain mid ctl' where p: "pop outs = Inr (mid, ctl')"
    and d: "decoder_loop env omc (weight (outer s)) emb ctx (unet_output_blocks (host s))
               (t_add env (t_call env (unet_middle_block (host s)) h1 emb ctx) mid, hs0, ctl') = Inr fin"
    unfolding Let_def emb_def [symmetric] by (auto simp: bind_err_Inr_iff)
  from p have "outs \<noteq> []" and "mid = last outs" and "ctl' = butlast outs"
    by (simp_all add: pop_Inr_iff)
  with hint cf len d show ?thesis by blast
qed

text \<open>
  C4 (amended): for a control network with the block counts of one the constructor
  returned (its weights may have been loaded since), every call of its forward pass
  that returns gives a list of one element per encoder block plus one. In a call of the
  hooked forward that reaches the end of the decoder loop: the list \<open>outs\<close> the control
  network's forward returned has one element per encoder block plus one, in the order of
  the encoder blocks (the zero convolution of each block applied to the block's output)
  with the middle-block output last; the hook pops that last element, adds it to the
  host's middle-block output, and starts the decoder loop on the rest of the list. When
  \<^verbatim>\<open>only_mid_control\<close> is false for the call, each decoder block pops one element (after
  \<open>j\<close> decoder blocks the stack holds the first \<open>n - j\<close> outputs, \<open>n\<close> the number of encoder
  blocks of the control network), the host has at most \<open>n\<close> decoder blocks, and the stack
  is empty at the end exactly when the host has \<open>n\<close> decoder blocks. When
  \<^verbatim>\<open>only_mid_control\<close> is true for the call, the decoder loop pops nothing and the \<open>n\<close>
  encoder outputs are still on the stack at the end.
\<close>

theorem control_stack:
  fixes s :: "(('a :: zero) controlnet, 't, 'w, 'f, 'm, dtype) session"
  assumes init: "ControlNet_init ini cfg = Inr built"
    and loaded: "same_block_counts built (control_model (outer s))"
    and decide: "call_only_mid_control env opts (outer s) x = Inr omc"
    and call: "hook_forward_state env opts s x timesteps ctx = Inr (h, hs, ctl)"
  shows "(\<forall>x' hint' timesteps' ctx' outs'.
            ControlNet_forward env (control_model (outer s)) x' hint' timesteps' ctx' = Inr outs'
            \<longrightarrow> length outs' = length (input_blocks (control_model (outer s))) + 1)
    \<and> (\<exists>hint outs emb_c h_enc h_mid emb_h h_host hs0.
        hint_cond (outer s) = Some hint
      \<and> ControlNet_forward env (control_model (outer s)) x hint timesteps ctx = Inr outs
      \<and> length outs = length (input_blocks (control_model (outer s))) + 1
      \<and> length h_enc = length (input_blocks (control_model (outer s)))
      \<and> outs = map (\<lambda>(zc, hh). t_seq env zc hh emb_c ctx)
                 (zip (zero_convs (control_model (outer s))) h_enc)
               @ [t_seq env (middle_block_out (control_model (outer s))) h_mid emb_c ctx]
      \<and> decoder_loop env omc (weight (outer s)) emb_h ctx (unet_output_blocks (host s))
          (t_add env (t_call env (unet_middle_block (host s)) h_host emb_h ctx) (last outs),
           hs0, butlast outs) = Inr (h, hs, ctl)
      \<and> (omc \<longrightarrow> ctl = butlast outs
              \<and> length ctl = length (input_blocks (control_model (outer s))) \<and> ctl \<noteq> [])
      \<and> (\<not> omc \<longrightarrow>
            length (unet_output_blocks (host s)) \<le> length (input_blocks (control_model (outer s)))
          \<and> (\<forall>j \<le> length (unet_output_blocks (host s)).
                \<exists>hj hsj. decoder_loop env False (weight (outer s)) emb_h ctx
                            (take j (unet_output_blocks (host s)))
                            (t_add env (t_call env (unet_middle_block (host s)) h_host emb_h ctx)
                               (last outs), hs0, butlast outs)
                  = Inr (hj, hsj, take (length (input_blocks (control_model (outer s))) - j) outs))
          \<and> ctl = take (length (input_blocks (control_model (outer s)))
                          - length (unet_output_blocks (host s))) outs
          \<and> (ctl = [] \<longleftrightarrow>
               length (unet_output_blocks (host s)) = length (input_blocks (control_model (outer s))))))"
proof -
  let ?cn = "control_model (outer s)"
  let ?n = "length (input_blocks ?cn)"
  let ?dec = "unet_output_blocks (host s)"
  from call decide have run: "hooked_decode env omc s x timesteps ctx = Inr (h, hs, ctl)"
    by (simp add: hook_forward_state_def bind_err_simps)
  from ControlNet_init_result [OF init] loaded
  have len: "length (zero_convs ?cn) = ?n" and pos: "0 < ?n"
    by (simp_all add: paired_def same_block_counts_def)
  from hooked_decode_Inr [OF run] obtain hint outs emb_h h_host hs0 where
    hint: "hint_cond (outer s) = Some hint"
    and cf: "ControlNet_forward env ?cn x hint timesteps ctx = Inr outs"
    and d: "decoder_loop env omc (weight (outer s)) emb_h ctx ?dec
          (t_add env (t_call env (unet_middle_block (host s)) h_host emb_h ctx) (last outs),
           hs0, butlast outs) = Inr (h, hs, ctl)"
    by blast
  let ?st = "(t_add env (t_call env (unet_middle_block (host s)) h_host emb_h ctx) (last outs),
           hs0, butlast outs)"
  from ControlNet_forward_outs [OF len cf] obtain emb_c h_enc h_mid where
    le: "length h_enc = ?n"
    and outs: "outs = map (\<lambda>(zc, hh). t_seq env zc hh emb_c ctx) (zip (zero_convs ?cn) h_enc)
               @ [t_seq env (middle_block_out ?cn) h_mid emb_c ctx]"
    by blast
  from outs le len have lo: "length outs = ?n + 1" by simp
  then have lb: "length (butlast outs) = ?n" by simp
  have tb: "take k (butlast outs) = take k outs" if "k \<le> ?n" for k
    using that lo by (simp add: take_butlast)
  have on: "ctl = butlast outs \<and> length ctl = ?n \<and> ctl \<noteq> []" if omc
  proof -
    from d that have "decoder_loop env True (weight (outer s)) emb_h ctx ?dec ?st = Inr (h, hs, ctl)"
      by simp
    from decoder_loop_omc [OF this] have cb: "ctl = butlast outs" by simp
    with lb have lc: "length ctl = ?n" by simp
    with pos have "ctl \<noteq> []" by auto
    with cb lc show ?thesis by simp
  qed
  have off: "length ?dec \<le> ?n
          \<and> (\<forall>j \<le> length ?dec.
                \<exists>hj hsj. decoder_loop env False (weight (outer s)) emb_h ctx (take j ?dec) ?st
                  = Inr (hj, hsj, take (?n - j) outs))
          \<and> ctl = take (?n - length ?dec) outs
          \<and> (ctl = [] \<longleftrightarrow> length ?dec = ?n)" if "\<not> omc"
  proof -
    from d that have d': "decoder_loop env False (weight (outer s)) emb_h ctx ?dec ?st = Inr (h, hs, ctl)"
      by simp
    from decoder_loop_pops [OF d'] have l0: "length ?dec \<le> length (butlast outs)"
      and c0: "ctl = take (length (butlast outs) - length ?dec) (butlast outs)" by blast+
    from l0 have l: "length ?dec \<le> ?n" unfolding lb .
    from c0 have c: "ctl = take (?n - length ?dec) (butlast outs)" unfolding lb .
    have "take (?n - length ?dec) (butlast outs) = take (?n - length ?dec) outs"
      by (rule tb) simp
    with c have c': "ctl = take (?n - length ?dec) outs" by simp
    have pre: "\<exists>hj hsj. decoder_loop env False (weight (outer s)) emb_h ctx (take j ?dec) ?st
                  = Inr (hj, hsj, take (?n - j) outs)" if "j \<le> length ?dec" for j
    proof -
      have "take (?n - j) (butlast outs) = take (?n - j) outs" by (rule tb) simp
      with decoder_loop_prefix [OF d' that, unfolded lb] show ?thesis by simp
    qed
    from c' lo l have "ctl = [] \<longleftrightarrow> length ?dec = ?n" by auto
    with l pre c' show ?thesis by blast
  qed
  have every: "length outs' = ?n + 1"
    if "ControlNet_forward env ?cn x' hint' timesteps' ctx' = Inr outs'"
    for x' hint' timesteps' ctx' outs'
  proof -
    from ControlNet_forward_outs [OF len that] len show ?thesis by auto
  qed
  from hint cf lo le outs d on off
  have "\<exists>hint outs emb_c h_enc h_mid emb_h h_host hs0.
        hint_cond (outer s) = Some hint
      \<and> ControlNet_forward env ?cn x hint timesteps ctx = Inr outs
      \<and> length outs = ?n + 1
      \<and> length h_enc = ?n
      \<and> outs = map (\<lambda>(zc, hh). t_seq env zc hh emb_c ctx) (zip (zero_convs ?cn) h_enc)
               @ [t_seq env (middle_block_out ?cn) h_mid emb_c ctx]
      \<and> decoder_loop env omc (weight (outer s)) emb_h ctx ?dec
          (t_add env (t_call env (unet_middle_block (host s)) h_host emb_h ctx) (last outs),
           hs0, butlast outs) = Inr (h, hs, ctl)
      \<and> (omc \<longrightarrow> ctl = butlast outs \<and> length ctl = ?n \<and> ctl \<noteq> [])
      \<and> (\<not> omc \<longrightarrow>
            length ?dec \<le> ?n
          \<and> (\<forall>j \<le> length ?dec.
                \<exists>hj hsj. decoder_loop env False (weight (outer s)) emb_h ctx (take j ?dec)
                            (t_add env (t_call env (unet_middle_block (host s)) h_host emb_h ctx)
                               (last outs), hs0, butlast outs)
                  = Inr (hj, hsj, take (?n - j) outs))
          \<and> ctl = take (?n - length ?dec) outs
          \<and> (ctl = [] \<longleftrightarrow> length ?dec = ?n))"
    by blast
  with every show ?thesis by blast
qed


text \<open>The definitions a run on a concrete input unfolds.\<close>

lemmas run_defs = hook_forward_def hook_forward_state_def call_only_mid_control_def hooked_decode_def
  ControlNet_forward_def ControlNet_align_def align_def last_two_def last_dim_def pop_def
  bind_err_def assert_that_def shape_torch_def tiny_session_def tiny_net_def Let_def

text \<open>
  C4 (as stated) has the hook pop one element per decoder block and the stack empty when
  the decoder finishes, in every call. In the call below the host has as many decoder
  blocks (two) as the control network has encoder blocks, the latent is 32 wide against
  a hint of 64 / 8 = 8, the setting \<^verbatim>\<open>control_net_only_midctrl_hires\<close> is at its default
  and so \<^verbatim>\<open>only_mid_control\<close> is true for the call: the control network returns three
  elements, the hooked forward returns normally, and two of the three elements are still
  on the stack after the last decoder block.
\<close>

theorem control_stack_left_over:
  "ControlNet_init (\<lambda>k. 1) tiny_config = Inr (control_model (outer tiny_session))
   \<and> length (input_blocks (control_model (outer tiny_session))) = 2
   \<and> length (unet_output_blocks (host tiny_session)) = 2
   \<and> ControlNet_forward shape_torch (control_model (outer tiny_session))
        [1, 4, 8, 32] [3, 64, 64] (Some []) []
       = Inr [[1, 4, 8, 32], [1, 4, 8, 32], [1, 4, 8, 32]]
   \<and> call_only_mid_control shape_torch Map.empty (outer tiny_session) [1, 4, 8, 32] = Inr True
   \<and> hook_forward_state shape_torch Map.empty tiny_session [1, 4, 8, 32] (Some []) []
       = Inr ([1, 4, 8, 32], [], [[1, 4, 8, 32], [1, 4, 8, 32]])
   \<and> hook_forward shape_torch Map.empty tiny_session [1, 4, 8, 32] (Some []) [] = Inr [1, 4, 8, 32]"
proof -
  have "ControlNet_init (\<lambda>k. 1) tiny_config = Inr (control_model (outer tiny_session))"
    using tiny_init by (simp add: tiny_session_def)
  moreover have "length (input_blocks (control_model (outer tiny_session))) = 2"
    by (simp add: tiny_session_def tiny_net_def)
  moreover have "length (unet_output_blocks (host tiny_session)) = 2"
    by (simp add: tiny_session_def)
  moreover have "ControlNet_forward shape_torch (control_model (outer tiny_session))
        [1, 4, 8, 32] [3, 64, 64] (Some []) []
       = Inr [[1, 4, 8, 32], [1, 4, 8, 32], [1, 4, 8, 32]]"
    by (simp add: run_defs)
  moreover have "call_only_mid_control shape_torch Map.empty (outer tiny_session) [1, 4, 8, 32]
       = Inr True"
    by (simp add: run_defs)
  moreover have "hook_forward_state shape_torch Map.empty tiny_session [1, 4, 8, 32] (Some []) []
       = Inr ([1, 4, 8, 32], [], [[1, 4, 8, 32], [1, 4, 8, 32]])"
    by (simp add: run_defs)
  moreover have "hook_forward shape_torch Map.empty tiny_session [1, 4, 8, 32] (Some []) []
       = Inr [1, 4, 8, 32]"
    by (simp add: run_defs)
  ultimately show ?thesis by blast
qed

theorem control_stack_witness:
  "ControlNet_init (\<lambda>k. 1) tiny_config = Inr tiny_net
   \<and> same_block_counts tiny_net (control_model (outer tiny_session))
   \<and> call_only_mid_control shape_torch Map.empty (outer tiny_session) [1, 4, 8, 8] = Inr False
   \<and> hook_forward_state shape_torch Map.empty tiny_session [1, 4, 8, 8] (Some []) []
       = Inr ([1, 4, 8, 8], [], [])
   \<and> (\<exists>outs. ControlNet_forward shape_torch (control_model (outer tiny_session))
                [1, 4, 8, 8] [3, 64, 64] (Some []) [] = Inr outs
          \<and> length outs = 3)"
proof -
  have i: "ControlNet_init (\<lambda>k. 1) tiny_config = Inr tiny_net"
    by (rule tiny_init)
  have l: "same_block_counts tiny_net (control_model (outer tiny_session))"
    by (simp add: same_block_counts_def tiny_session_def)
  have d: "call_only_mid_control shape_torch Map.empty (outer tiny_session) [1, 4, 8, 8] = Inr False"
    by (simp add: run_defs)
  have r: "hook_forward_state shape_torch Map.empty tiny_session [1, 4, 8, 8] (Some []) []
       = Inr ([1, 4, 8, 8], [], [])"
    by (simp add: run_defs)
  have h: "hint_cond (outer tiny_session) = Some [3, 64, 64]"
    and n: "length (input_blocks (control_model (outer tiny_session))) = 2"
    by (simp_all add: tiny_session_def tiny_net_def)
  from control_stack [OF i l d r] obtain hint outs where
    "hint_cond (outer tiny_session) = Some hint"
    and "ControlNet_forward shape_torch (control_model (outer tiny_session))
                [1, 4, 8, 8] hint (Some []) [] = Inr outs"
    and "length outs = length (input_blocks (control_model (outer tiny_session))) + 1"
    by blast
  with h n have "\<exists>outs. ControlNet_forward shape_torch (control_model (outer tiny_session))
                [1, 4, 8, 8] [3, 64, 64] (Some []) [] = Inr outs
          \<and> length outs = 3" by auto
  with i l d r show ?thesis by blast
qed


end
